theory Spec2Isabelle
  imports Main
begin

section \<open>Python values\<close>

text \<open>
  The module \<open>gmetric.py\<close> is dynamically typed: any object can be assigned to an
  attribute of a \<open>Gmetric\<close>, and the checks of \<open>__setattr__\<close> decide what is kept.
  The values of the model are \<open>None\<close>, \<open>bool\<close>, \<open>int\<close>, \<open>str\<close>, \<open>list\<close>, \<open>tuple\<close>
  and the members of the two enumerations of the module. A \<open>str\<close> is the list of its
  code points, a \<open>bytes\<close> object the list of its bytes (each below 256). Floats and
  objects of other classes are not modelled.
\<close>

type_synonym pystr = "nat list"
type_synonym bytes = "nat list"

definition ascii :: "string \<Rightarrow> nat list" where
  "ascii s = map of_char s"

datatype TypeEnum = STRING | INT8 | UINT8 | INT16 | UINT16 | INT32 | UINT32 | FLOAT | DOUBLE

fun TypeEnum_value :: "TypeEnum \<Rightarrow> pystr" where
  "TypeEnum_value STRING = ascii ''string''"
| "TypeEnum_value INT8 = ascii ''int8''"
| "TypeEnum_value UINT8 = ascii ''uint8''"
| "TypeEnum_value INT16 = ascii ''int16''"
| "TypeEnum_value UINT16 = ascii ''uint16''"
| "TypeEnum_value INT32 = ascii ''int32''"
| "TypeEnum_value UINT32 = ascii ''uint32''"
| "TypeEnum_value FLOAT = ascii ''float''"
| "TypeEnum_value DOUBLE = ascii ''double''"

datatype SlopeEnum = ZERO | POSITIVE | NEGATIVE | BOTH | UNSPECIFIED | DERIVATIVE

fun SlopeEnum_value :: "SlopeEnum \<Rightarrow> int" where
  "SlopeEnum_value ZERO = 0"
| "SlopeEnum_value POSITIVE = 1"
| "SlopeEnum_value NEGATIVE = 2"
| "SlopeEnum_value BOTH = 3"
| "SlopeEnum_value UNSPECIFIED = 4"
| "SlopeEnum_value DERIVATIVE = 5"

datatype pyval =
    PNone
  | PBool bool
  | PInt int
  | PStr pystr
  | PList "pyval list"
  | PTuple "pyval list"
  | PType TypeEnum
  | PSlope SlopeEnum

text \<open>
  The exceptions that the modelled code can end with. \<open>ValueError\<close> carries its
  message: the module raises \<open>ValueError('')\<close> from every check and
  \<open>ValueError('spoof-heatbeat needs spoof-host')\<close> from \<open>Sender.send\<close>.
  \<open>ConversionError\<close> is the exception of \<open>xdrlib\<close>, which its packer raises for an
  argument that is no integer of the 32-bit range (it wraps \<open>struct.error\<close>).
  \<open>Unmodelled\<close> is no exception: it marks a run that leaves the model (\<open>str()\<close> of
  an object that is no \<open>str\<close>).
\<close>

datatype error =
    ValueError string
  | TypeError
  | AttributeError
  | ConversionError
  | UnicodeEncodeError
  | OSError
  | Unmodelled

text \<open>
  Truth value of an object, as \<open>if x:\<close> and \<open>x and y\<close> test it. A member of a plain
  \<open>Enum\<close> is true; a member of an \<open>IntEnum\<close> is an \<open>int\<close> and is true when it is
  not zero.
\<close>

fun truthy :: "pyval \<Rightarrow> bool" where
  "truthy PNone = False"
| "truthy (PBool b) = b"
| "truthy (PInt n) = (n \<noteq> 0)"
| "truthy (PStr s) = (s \<noteq> [])"
| "truthy (PList xs) = (xs \<noteq> [])"
| "truthy (PTuple xs) = (xs \<noteq> [])"
| "truthy (PType t) = True"
| "truthy (PSlope s) = (SlopeEnum_value s \<noteq> 0)"

fun isinstance_str :: "pyval \<Rightarrow> bool" where
  "isinstance_str (PStr s) = True"
| "isinstance_str v = False"

fun isinstance_bool :: "pyval \<Rightarrow> bool" where
  "isinstance_bool (PBool b) = True"
| "isinstance_bool v = False"

fun isinstance_list_or_tuple :: "pyval \<Rightarrow> bool" where
  "isinstance_list_or_tuple (PList xs) = True"
| "isinstance_list_or_tuple (PTuple xs) = True"
| "isinstance_list_or_tuple v = False"

text \<open>
  \<open>value in TypeEnum\<close> and \<open>value in SlopeEnum\<close>: true for the members of the class,
  as in the interpreters up to Python 3.7. (From Python 3.8 to 3.11 the test itself
  raises \<open>TypeError\<close> for an object that is no \<open>Enum\<close> member, where the model has the
  \<open>ValueError\<close> of the module; the assignment fails in both cases. Python 3.12
  also takes the values of the members for members; that interpreter is not modelled.)
\<close>

fun in_TypeEnum :: "pyval \<Rightarrow> bool" where
  "in_TypeEnum (PType t) = True"
| "in_TypeEnum v = False"

fun in_SlopeEnum :: "pyval \<Rightarrow> bool" where
  "in_SlopeEnum (PSlope s) = True"
| "in_SlopeEnum v = False"

text \<open>
  \<open>int(value)\<close>. A \<open>bool\<close> and an \<open>IntEnum\<close> member are integers. For a \<open>str\<close> the
  model reads an optional sign followed by ASCII decimal digits; Python accepts some
  more spellings (surrounding white space, single underscores between digits, other
  Unicode digits), which the model counts as malformed. The message of the
  \<open>ValueError\<close> of \<open>int\<close> is shortened to \<open>int\<close>.
\<close>

fun digits_value :: "int \<Rightarrow> nat list \<Rightarrow> int option" where
  "digits_value acc [] = Some acc"
| "digits_value acc (c # cs) =
     (if 48 \<le> c \<and> c \<le> 57 then digits_value (10 * acc + int (c - 48)) cs else None)"

definition int_of_digits :: "nat list \<Rightarrow> int option" where
  "int_of_digits cs = (if cs = [] then None else digits_value 0 cs)"

fun int_of_pystr :: "pystr \<Rightarrow> int option" where
  "int_of_pystr [] = None"
| "int_of_pystr (c # cs) =
     (if c = 45 then map_option uminus (int_of_digits cs)
      else if c = 43 then int_of_digits cs
      else int_of_digits (c # cs))"

fun py_int :: "pyval \<Rightarrow> error + int" where
  "py_int (PInt n) = Inr n"
| "py_int (PBool b) = Inr (if b then 1 else 0)"
| "py_int (PSlope s) = Inr (SlopeEnum_value s)"
| "py_int (PStr s) = (case int_of_pystr s of None \<Rightarrow> Inl (ValueError ''int'') | Some n \<Rightarrow> Inr n)"
| "py_int v = Inl TypeError"

section \<open>The metric descriptor and its validation\<close>

text \<open>
  The instance attributes of a \<open>Gmetric\<close>. \<open>myhost\<close> is the private
  \<open>str(socket.gethostname())\<close> that \<open>__init__\<close> stores; the lock of the object plays no
  part in a sequential run and is left out. \<open>attrs\<close> holds every other attribute that
  was assigned to the object.
\<close>

record gmetric =
  myhost :: pystr
  gv_name :: pyval
  gv_value :: pyval
  gv_type :: pyval
  gv_units :: pyval
  gv_slope :: pyval
  gv_tmax :: pyval
  gv_dmax :: pyval
  gm_cluster :: pyval
  gm_group :: pyval
  gm_desc :: pyval
  gm_title :: pyval
  gm_spoof_host :: pyval
  gm_spoof_heartbeat :: pyval
  attrs :: "string \<Rightarrow> pyval option"

text \<open>
  \<open>__check_containing_quot__\<close> returns \<open>value and '"' in value\<close>; its callers only
  test the result, so the model returns its truth value. The membership test needs a
  container: it raises \<open>TypeError\<close> for an integer or an enumeration member, and it
  compares the elements of a list or tuple with the one-character string.
\<close>

definition check_containing_quot :: "pyval \<Rightarrow> error + bool" where
  "check_containing_quot v =
     (if \<not> truthy v then Inr False
      else (case v of
              PStr s \<Rightarrow> Inr (34 \<in> set s)
            | PList xs \<Rightarrow> Inr (PStr [34] \<in> set xs)
            | PTuple xs \<Rightarrow> Inr (PStr [34] \<in> set xs)
            | _ \<Rightarrow> Inl TypeError))"

definition check_gv_var :: "string \<Rightarrow> pyval \<Rightarrow> error option" where
  "check_gv_var gvname v =
     (if gvname \<in> set [''name'', ''value'', ''units''] then
        (if \<not> isinstance_str v then Some (ValueError '''')
         else (case check_containing_quot v of
                 Inl e \<Rightarrow> Some e
               | Inr q \<Rightarrow> if q then Some (ValueError '''') else None))
      else if gvname = ''type'' then
        (if \<not> in_TypeEnum v then Some (ValueError '''') else None)
      else if gvname = ''slope'' then
        (if \<not> in_SlopeEnum v then Some (ValueError '''') else None)
      else if gvname \<in> set [''tmax'', ''dmax''] then
        (case py_int v of
           Inl e \<Rightarrow> Some e
         | Inr n \<Rightarrow> if n < 0 then Some (ValueError '''') else None)
      else None)"

text \<open>
  \<open>__validate_spoof_host__\<close>, called on a true value only. It returns \<open>False\<close> from
  its two \<open>return\<close> statements and \<open>None\<close> when it falls off its end. \<open>':' not in value\<close>
  raises \<open>TypeError\<close> for a value that is no container, and a list or tuple that holds
  the string \<open>':'\<close> has no \<open>split\<close>.
\<close>

definition split_colon :: "pystr \<Rightarrow> pystr \<times> pystr" where
  "split_colon s = (takeWhile (\<lambda>c. c \<noteq> 58) s, drop 1 (dropWhile (\<lambda>c. c \<noteq> 58) s))"

fun validate_spoof_host :: "pyval \<Rightarrow> error + pyval" where
  "validate_spoof_host (PStr s) =
     (if 58 \<notin> set s then Inr (PBool False)
      else (case split_colon s of (spoofip, spoofhost) \<Rightarrow>
              if length spoofip = 0 \<or> length spoofhost = 0 then Inr (PBool False)
              else Inr PNone))"
| "validate_spoof_host (PList xs) =
     (if PStr [58] \<notin> set xs then Inr (PBool False) else Inl AttributeError)"
| "validate_spoof_host (PTuple xs) =
     (if PStr [58] \<notin> set xs then Inr (PBool False) else Inl AttributeError)"
| "validate_spoof_host v = Inl TypeError"

fun check_group_elements :: "pyval list \<Rightarrow> error option" where
  "check_group_elements [] = None"
| "check_group_elements (grpval # rest) =
     (case check_containing_quot grpval of
        Inl e \<Rightarrow> Some e
      | Inr q \<Rightarrow> if q then Some (ValueError '''') else check_group_elements rest)"

fun elements :: "pyval \<Rightarrow> pyval list" where
  "elements (PList xs) = xs"
| "elements (PTuple xs) = xs"
| "elements v = []"

definition check_gm_var :: "string \<Rightarrow> pyval \<Rightarrow> error option" where
  "check_gm_var gmname v =
     (if gmname \<in> set [''cluster'', ''desc'', ''title''] then
        (if v \<noteq> PNone \<and> \<not> isinstance_str v then Some (ValueError '''')
         else if \<not> truthy v then None
         else (case check_containing_quot v of
                 Inl e \<Rightarrow> Some e
               | Inr q \<Rightarrow> if q then Some (ValueError '''') else None))
      else if gmname = ''group'' then
        (if v \<noteq> PNone then
           (if \<not> isinstance_list_or_tuple v then Some (ValueError '''')
            else check_group_elements (elements v))
         else None)
      else if gmname = ''spoof_host'' then
        (if \<not> truthy v then None
         else (case validate_spoof_host v of
                 Inl e \<Rightarrow> Some e
               | Inr r \<Rightarrow> if truthy r then Some (ValueError '''') else None))
      else if gmname = ''spoof_heartbeat'' then
        (if \<not> isinstance_bool v then Some (ValueError '''') else None)
      else None)"

text \<open>
  \<open>super().__setattr__(name, value)\<close>: the attribute is bound to the new value.
  The two private attributes of the object (the mangled names of \<open>__myhost\<close> and
  \<open>__mylock\<close>) are bound by \<open>__init__\<close> only; an assignment to them from outside is
  not modelled.
\<close>

definition store :: "gmetric \<Rightarrow> string \<Rightarrow> pyval \<Rightarrow> gmetric" where
  "store d name v =
     (if name = ''gv_name'' then d\<lparr>gv_name := v\<rparr>
      else if name = ''gv_value'' then d\<lparr>gv_value := v\<rparr>
      else if name = ''gv_type'' then d\<lparr>gv_type := v\<rparr>
      else if name = ''gv_units'' then d\<lparr>gv_units := v\<rparr>
      else if name = ''gv_slope'' then d\<lparr>gv_slope := v\<rparr>
      else if name = ''gv_tmax'' then d\<lparr>gv_tmax := v\<rparr>
      else if name = ''gv_dmax'' then d\<lparr>gv_dmax := v\<rparr>
      else if name = ''gm_cluster'' then d\<lparr>gm_cluster := v\<rparr>
      else if name = ''gm_group'' then d\<lparr>gm_group := v\<rparr>
      else if name = ''gm_desc'' then d\<lparr>gm_desc := v\<rparr>
      else if name = ''gm_title'' then d\<lparr>gm_title := v\<rparr>
      else if name = ''gm_spoof_host'' then d\<lparr>gm_spoof_host := v\<rparr>
      else if name = ''gm_spoof_heartbeat'' then d\<lparr>gm_spoof_heartbeat := v\<rparr>
      else d\<lparr>attrs := (attrs d)(name \<mapsto> v)\<rparr>)"

text \<open>
  \<open>__setattr__\<close>. A name that starts with \<open>gv_\<close> or \<open>gm_\<close> has that prefix at its
  front, so \<open>name.replace(prefix, '', 1)\<close> drops the first three characters. The check
  runs before the attribute is bound: when it raises, the object is what it was. The
  result is the exception the call ended with (\<open>None\<close> when it returned) and the object
  after the call.
\<close>

definition check_attr :: "string \<Rightarrow> pyval \<Rightarrow> error option" where
  "check_attr name v =
     (if take 3 name = ''gv_'' then check_gv_var (drop 3 name) v
      else if take 3 name = ''gm_'' then check_gm_var (drop 3 name) v
      else None)"

definition setattr :: "gmetric \<Rightarrow> string \<Rightarrow> pyval \<Rightarrow> error option \<times> gmetric" where
  "setattr d name v =
     (case check_attr name v of
        Some e \<Rightarrow> (Some e, d)
      | None \<Rightarrow> (None, store d name v))"

text \<open>
  A run of assignments, as the body of a method makes them: the first exception ends
  the run.
\<close>

fun assign_all :: "gmetric \<Rightarrow> (string \<times> pyval) list \<Rightarrow> error option \<times> gmetric" where
  "assign_all d [] = (None, d)"
| "assign_all d ((name, v) # rest) =
     (case setattr d name v of
        (Some e, d') \<Rightarrow> (Some e, d')
      | (None, d') \<Rightarrow> assign_all d' rest)"

text \<open>
  \<open>Gmetric.__init__\<close> on a machine whose host name is \<open>hostname\<close>. Its assignments go
  through \<open>__setattr__\<close> as well; the object below is the one they build (lemma
  \<open>Gmetric_init_assignments\<close>).
\<close>

definition Gmetric_defaults :: "(string \<times> pyval) list" where
  "Gmetric_defaults =
     [(''gv_name'', PStr []), (''gv_value'', PStr []), (''gv_type'', PType STRING),
      (''gv_units'', PStr []), (''gv_slope'', PSlope BOTH), (''gv_tmax'', PInt 60),
      (''gv_dmax'', PInt 0), (''gm_cluster'', PNone), (''gm_group'', PNone),
      (''gm_desc'', PNone), (''gm_title'', PNone), (''gm_spoof_host'', PNone),
      (''gm_spoof_heartbeat'', PBool False)]"

definition Gmetric_init :: "pystr \<Rightarrow> gmetric" where
  "Gmetric_init hostname =
     \<lparr>myhost = hostname,
      gv_name = PStr [], gv_value = PStr [], gv_type = PType STRING, gv_units = PStr [],
      gv_slope = PSlope BOTH, gv_tmax = PInt 60, gv_dmax = PInt 0,
      gm_cluster = PNone, gm_group = PNone, gm_desc = PNone, gm_title = PNone,
      gm_spoof_host = PNone, gm_spoof_heartbeat = PBool False,
      attrs = Map.empty\<rparr>"

definition set_heartbeat :: "gmetric \<Rightarrow> error option \<times> gmetric" where
  "set_heartbeat d =
     assign_all d
       [(''gv_name'', PStr (ascii ''heartbeat'')), (''gv_type'', PType UINT32),
        (''gv_value'', PStr (ascii ''0'')), (''gv_units'', PStr []),
        (''gv_slope'', PSlope ZERO), (''gv_tmax'', PInt 0), (''gv_dmax'', PInt 0),
        (''gm_spoof_heartbeat'', PBool True)]"

section \<open>The XDR packer\<close>

text \<open>
  \<open>xdrlib.Packer\<close> of the Python standard library, which the module uses and does not
  define. The packer is the buffer it has written so far. \<open>pack_int\<close> is
  \<open>struct.pack('>l', x)\<close> and \<open>pack_uint\<close> is \<open>struct.pack('>L', x)\<close>: four bytes, most
  significant first, for an integer of the signed or unsigned 32-bit range (a \<open>bool\<close>
  and an \<open>IntEnum\<close> member are integers), and \<open>ConversionError\<close> for anything else.
\<close>

definition be32 :: "nat \<Rightarrow> bytes" where
  "be32 n = [n div 16777216 mod 256, n div 65536 mod 256, n div 256 mod 256, n mod 256]"

fun py_index :: "pyval \<Rightarrow> int option" where
  "py_index (PInt n) = Some n"
| "py_index (PBool b) = Some (if b then 1 else 0)"
| "py_index (PSlope s) = Some (SlopeEnum_value s)"
| "py_index v = None"

definition pack_int :: "int \<Rightarrow> bytes \<Rightarrow> error + bytes" where
  "pack_int x buf =
     (if - 2147483648 \<le> x \<and> x < 2147483648 then Inr (buf @ be32 (nat (x mod 4294967296)))
      else Inl ConversionError)"

definition pack_uint :: "pyval \<Rightarrow> bytes \<Rightarrow> error + bytes" where
  "pack_uint x buf =
     (case py_index x of
        None \<Rightarrow> Inl ConversionError
      | Some n \<Rightarrow>
          if 0 \<le> n \<and> n < 4294967296 then Inr (buf @ be32 (nat n)) else Inl ConversionError)"

definition pack_bool :: "pyval \<Rightarrow> bytes \<Rightarrow> error + bytes" where
  "pack_bool x buf = Inr (buf @ (if truthy x then [0, 0, 0, 1] else [0, 0, 0, 0]))"

text \<open>
  \<open>pack_fstring(n, s)\<close> writes \<open>s[:n]\<close> and fills it with zero bytes up to
  \<open>((n+3)//4)*4\<close> bytes; \<open>pack_string(s)\<close> writes \<open>len(s)\<close> with \<open>pack_uint\<close> and then
  calls \<open>pack_fstring(len(s), s)\<close>, whose \<open>n < 0\<close> check cannot fail there.
\<close>

definition pack_fstring :: "nat \<Rightarrow> bytes \<Rightarrow> bytes \<Rightarrow> error + bytes" where
  "pack_fstring n s buf =
     (let data = take n s; n' = ((n + 3) div 4) * 4
      in Inr (buf @ data @ replicate (n' - length data) 0))"

definition pack_string :: "bytes \<Rightarrow> bytes \<Rightarrow> error + bytes" where
  "pack_string s buf =
     (case pack_uint (PInt (int (length s))) buf of
        Inl e \<Rightarrow> Inl e
      | Inr buf' \<Rightarrow> pack_fstring (length s) s buf')"

text \<open>
  A sequence of statements on the packer: each one runs on the buffer the previous
  one left, and the first exception ends the sequence.
\<close>

fun run :: "(bytes \<Rightarrow> error + bytes) list \<Rightarrow> bytes \<Rightarrow> error + bytes" where
  "run [] buf = Inr buf"
| "run (stmt # stmts) buf =
     (case stmt buf of Inl e \<Rightarrow> Inl e | Inr buf' \<Rightarrow> run stmts buf')"

text \<open>
  \<open>str.encode()\<close>: UTF-8. A surrogate code point has no encoding
  (\<open>UnicodeEncodeError\<close>); an object that is no \<open>str\<close> has no \<open>encode\<close>
  (\<open>AttributeError\<close>). Python has no code point above \<open>0x10FFFF\<close>.
\<close>

definition utf8_char :: "nat \<Rightarrow> bytes option" where
  "utf8_char c =
     (if c < 128 then Some [c]
      else if c < 2048 then Some [192 + c div 64, 128 + c mod 64]
      else if c < 65536 then
        (if 55296 \<le> c \<and> c \<le> 57343 then None
         else Some [224 + c div 4096, 128 + c div 64 mod 64, 128 + c mod 64])
      else if c < 1114112 then
        Some [240 + c div 262144, 128 + c div 4096 mod 64, 128 + c div 64 mod 64, 128 + c mod 64]
      else None)"

fun encode_str :: "pystr \<Rightarrow> bytes option" where
  "encode_str [] = Some []"
| "encode_str (c # cs) =
     (case utf8_char c of
        None \<Rightarrow> None
      | Some b \<Rightarrow> (case encode_str cs of None \<Rightarrow> None | Some bs \<Rightarrow> Some (b @ bs)))"

fun py_encode :: "pyval \<Rightarrow> error + bytes" where
  "py_encode (PStr s) =
     (case encode_str s of None \<Rightarrow> Inl UnicodeEncodeError | Some b \<Rightarrow> Inr b)"
| "py_encode v = Inl AttributeError"

text \<open>\<open>pack.pack_string(x.encode())\<close>: the argument is evaluated, then packed.\<close>

definition pack_encoded :: "pyval \<Rightarrow> bytes \<Rightarrow> error + bytes" where
  "pack_encoded x buf =
     (case py_encode x of Inl e \<Rightarrow> Inl e | Inr b \<Rightarrow> pack_string b buf)"

text \<open>
  \<open>len(x)\<close> and \<open>for e in x\<close> need a sized, iterable object; a \<open>str\<close> yields its
  characters as strings of length one. \<open>x.value\<close> exists on the members of the
  enumerations only. \<open>str(x)\<close> is modelled on a \<open>str\<close>, where it is the identity.
\<close>

fun py_len :: "pyval \<Rightarrow> error + nat" where
  "py_len (PStr s) = Inr (length s)"
| "py_len (PList xs) = Inr (length xs)"
| "py_len (PTuple xs) = Inr (length xs)"
| "py_len v = Inl TypeError"

fun py_iter :: "pyval \<Rightarrow> error + pyval list" where
  "py_iter (PStr s) = Inr (map (\<lambda>c. PStr [c]) s)"
| "py_iter (PList xs) = Inr xs"
| "py_iter (PTuple xs) = Inr xs"
| "py_iter v = Inl TypeError"

fun attr_value :: "pyval \<Rightarrow> error + pyval" where
  "attr_value (PType t) = Inr (PStr (TypeEnum_value t))"
| "attr_value (PSlope s) = Inr (PInt (SlopeEnum_value s))"
| "attr_value v = Inl AttributeError"

fun py_str :: "pyval \<Rightarrow> error + pyval" where
  "py_str (PStr s) = Inr (PStr s)"
| "py_str v = Inl Unmodelled"

section \<open>The encoder\<close>

text \<open>
  The local \<open>targethost\<close> of \<open>get_metabuf\<close> and \<open>get_valuebuf\<close>: the host name of the
  machine, replaced by \<open>gm_spoof_host\<close> when \<open>if self.gm_spoof_host:\<close> holds.
\<close>

definition targethost :: "gmetric \<Rightarrow> pyval" where
  "targethost d = (if truthy (gm_spoof_host d) then gm_spoof_host d else PStr (myhost d))"

text \<open>
  \<open>pack.pack_string(b'heartbeat')\<close> for a heartbeat, \<open>pack.pack_string(self.gv_name.encode())\<close>
  otherwise: the statement occurs three times in the module.
\<close>

definition pack_name :: "gmetric \<Rightarrow> bytes \<Rightarrow> error + bytes" where
  "pack_name d buf =
     (if truthy (gm_spoof_heartbeat d) then pack_string (ascii ''heartbeat'') buf
      else pack_encoded (gv_name d) buf)"

text \<open>
  \<open>pack.pack_bool(self.gm_spoof_host and len(self.gm_spoof_host) > 0)\<close>: a false
  \<open>gm_spoof_host\<close> is the argument itself, a true one is measured.
\<close>

definition pack_spoof_flag :: "gmetric \<Rightarrow> bytes \<Rightarrow> error + bytes" where
  "pack_spoof_flag d buf =
     (if \<not> truthy (gm_spoof_host d) then pack_bool (gm_spoof_host d) buf
      else (case py_len (gm_spoof_host d) of
              Inl e \<Rightarrow> Inl e
            | Inr n \<Rightarrow> pack_bool (PBool (n > 0)) buf))"

definition get_meta_value_buf :: "gmetric \<Rightarrow> bytes \<Rightarrow> error + bytes" where
  "get_meta_value_buf d pack =
     run [pack_name d,
          pack_spoof_flag d,
          (\<lambda>buf. case attr_value (gv_type d) of Inl e \<Rightarrow> Inl e | Inr v \<Rightarrow> pack_encoded v buf),
          pack_name d,
          pack_encoded (gv_units d),
          (\<lambda>buf. case attr_value (gv_slope d) of Inl e \<Rightarrow> Inl e | Inr v \<Rightarrow> pack_uint v buf),
          pack_uint (gv_tmax d),
          pack_uint (gv_dmax d)] pack"

text \<open>
  The count \<open>mlen\<close> of \<open>__get_meta_meta_buf__\<close>: one for each of the four attributes
  that \<open>is not None\<close>, \<open>len(self.gm_group)\<close> when \<open>if self.gm_group:\<close> holds, one for a
  heartbeat.
\<close>

definition count_mlen :: "gmetric \<Rightarrow> error + nat" where
  "count_mlen d =
     (let mlen = length (filter (\<lambda>gmelement. gmelement \<noteq> PNone)
                    [gm_cluster d, gm_desc d, gm_title d, gm_spoof_host d])
      in case (if truthy (gm_group d) then py_len (gm_group d) else Inr 0) of
           Inl e \<Rightarrow> Inl e
         | Inr n \<Rightarrow> Inr (mlen + n + (if truthy (gm_spoof_heartbeat d) then 1 else 0)))"

definition pack_pair :: "string \<Rightarrow> pyval \<Rightarrow> (bytes \<Rightarrow> error + bytes) list" where
  "pack_pair key x = [pack_string (ascii key), pack_encoded x]"

definition pack_if_set :: "string \<Rightarrow> pyval \<Rightarrow> (bytes \<Rightarrow> error + bytes) list" where
  "pack_if_set key x = (if truthy x then pack_pair key x else [])"

definition pack_group :: "gmetric \<Rightarrow> bytes \<Rightarrow> error + bytes" where
  "pack_group d buf =
     (if truthy (gm_group d) then
        (case py_iter (gm_group d) of
           Inl e \<Rightarrow> Inl e
         | Inr xs \<Rightarrow> run (concat (map (pack_pair ''GROUP'') xs)) buf)
      else Inr buf)"

definition get_meta_meta_buf :: "gmetric \<Rightarrow> bytes \<Rightarrow> error + bytes" where
  "get_meta_meta_buf d pack =
     (case count_mlen d of
        Inl e \<Rightarrow> Inl e
      | Inr mlen \<Rightarrow>
          run ([pack_uint (PInt (int mlen))]
               @ pack_if_set ''CLUSTER'' (gm_cluster d)
               @ pack_if_set ''DESC'' (gm_desc d)
               @ pack_if_set ''TITLE'' (gm_title d)
               @ [pack_group d]
               @ pack_if_set ''SPOOF_HOST'' (gm_spoof_host d)
               @ (if truthy (gm_spoof_heartbeat d)
                  then [pack_string (ascii ''SPOOF_HEARTBEAT''), pack_string (ascii ''yes'')]
                  else [])) pack)"

definition get_metabuf :: "gmetric \<Rightarrow> error + bytes" where
  "get_metabuf d =
     run [pack_int 128,
          pack_encoded (targethost d),
          get_meta_value_buf d,
          get_meta_meta_buf d] []"

definition get_valuebuf :: "gmetric \<Rightarrow> error + bytes" where
  "get_valuebuf d =
     run [pack_int (128 + 5),
          pack_encoded (targethost d),
          pack_name d,
          pack_spoof_flag d,
          pack_string (ascii ''%s''),
          (\<lambda>buf. case py_str (gv_value d) of Inl e \<Rightarrow> Inl e | Inr v \<Rightarrow> pack_encoded v buf)] []"

section \<open>The sender\<close>

text \<open>
  What a \<open>Sender\<close> does to the outside world is a trace of events, the latest last.
  The world is a parameter: the resolver behind \<open>socket.gethostbyname\<close>, the test
  \<open>ipaddress.ip_address(ip).is_multicast\<close>, and whether the operating system carries
  out a socket operation after the events so far (it raises \<open>OSError\<close> otherwise).
\<close>

type_synonym address = "pystr \<times> int"

datatype event =
    Resolve pystr
  | SocketCreated
  | SetMulticastTTL int
  | SendTo bytes address
  | SocketClosed

record world =
  gethostbyname :: "pystr \<Rightarrow> error + pystr"
  is_multicast :: "pystr \<Rightarrow> error + bool"
  os_accepts :: "event list \<Rightarrow> event \<Rightarrow> bool"

definition syscall :: "world \<Rightarrow> event \<Rightarrow> event list \<Rightarrow> error + event list" where
  "syscall w ev tr = (if os_accepts w tr ev then Inr (tr @ [ev]) else Inl OSError)"

text \<open>
  The attributes of a \<open>Sender\<close>; \<open>mysocket\<close> tells whether \<open>__mysocket\<close> holds a socket
  (it is \<open>None\<close> otherwise). The lock is left out, as for the descriptor.
\<close>

record sender =
  dstaddr :: address
  ttl :: int
  mysocket :: bool

definition Sender_init ::
  "world \<Rightarrow> pystr \<Rightarrow> int \<Rightarrow> int \<Rightarrow> event list \<Rightarrow> (error + sender) \<times> event list" where
  "Sender_init w dsthost dstport ttl_arg tr =
     (if dstport \<le> 0 \<or> dstport \<ge> 65536 then (Inl (ValueError ''''), tr)
      else (case gethostbyname w dsthost of
              Inl e \<Rightarrow> (Inl e, tr @ [Resolve dsthost])
            | Inr ip \<Rightarrow>
                (Inr \<lparr>dstaddr = (ip, dstport), ttl = ttl_arg, mysocket = False\<rparr>,
                 tr @ [Resolve dsthost])))"

definition create_socket ::
  "world \<Rightarrow> sender \<Rightarrow> event list \<Rightarrow> error option \<times> sender \<times> event list" where
  "create_socket w s tr =
     (case syscall w SocketCreated tr of
        Inl e \<Rightarrow> (Some e, s, tr)
      | Inr tr1 \<Rightarrow>
          (let s1 = s\<lparr>mysocket := True\<rparr>
           in case is_multicast w (fst (dstaddr s1)) of
                Inl e \<Rightarrow> (Some e, s1, tr1)
              | Inr m \<Rightarrow>
                  if m then
                    (case syscall w (SetMulticastTTL (ttl s1)) tr1 of
                       Inl e \<Rightarrow> (Some e, s1, tr1)
                     | Inr tr2 \<Rightarrow> (None, s1, tr2))
                  else (None, s1, tr1)))"

text \<open>The argument of \<open>send\<close>: a \<open>Gmetric\<close>, or an object of another class.\<close>

datatype send_arg = AGmetric gmetric | AOther pyval

definition send ::
  "world \<Rightarrow> sender \<Rightarrow> send_arg \<Rightarrow> event list \<Rightarrow> error option \<times> sender \<times> event list" where
  "send w s arg tr =
     (case arg of
        AOther v \<Rightarrow> (Some (ValueError ''''), s, tr)
      | AGmetric metric \<Rightarrow>
          if truthy (gm_spoof_heartbeat metric) \<and> \<not> truthy (gm_spoof_host metric)
          then (Some (ValueError ''spoof-heatbeat needs spoof-host''), s, tr)
          else
            (case get_metabuf metric of
               Inl e \<Rightarrow> (Some e, s, tr)
             | Inr mbuf \<Rightarrow>
                 (case get_valuebuf metric of
                    Inl e \<Rightarrow> (Some e, s, tr)
                  | Inr vbuf \<Rightarrow>
                      (case (if \<not> mysocket s then create_socket w s tr else (None, s, tr)) of
                         (Some e, s1, tr1) \<Rightarrow> (Some e, s1, tr1)
                       | (None, s1, tr1) \<Rightarrow>
                           (case syscall w (SendTo mbuf (dstaddr s1)) tr1 of
                              Inl e \<Rightarrow> (Some e, s1, tr1)
                            | Inr tr2 \<Rightarrow>
                                (case syscall w (SendTo vbuf (dstaddr s1)) tr2 of
                                   Inl e \<Rightarrow> (Some e, s1, tr2)
                                 | Inr tr3 \<Rightarrow> (None, s1, tr3)))))))"

definition close_socket ::
  "world \<Rightarrow> sender \<Rightarrow> event list \<Rightarrow> error option \<times> sender \<times> event list" where
  "close_socket w s tr =
     (if mysocket s then
        (case syscall w SocketClosed tr of
           Inl e \<Rightarrow> (Some e, s\<lparr>mysocket := False\<rparr>, tr)
         | Inr tr1 \<Rightarrow> (None, s\<lparr>mysocket := False\<rparr>, tr1))
      else (None, s\<lparr>mysocket := False\<rparr>, tr))"

text \<open>The datagrams of a trace, in the order they were sent.\<close>

fun datagrams :: "event list \<Rightarrow> (bytes \<times> address) list" where
  "datagrams [] = []"
| "datagrams (SendTo b a # tr) = (b, a) # datagrams tr"
| "datagrams (ev # tr) = datagrams tr"

section \<open>The record layouts of the specification\<close>

text \<open>
  The wire format as the specification words it: a record is a sequence of XDR items.
  An integer is four bytes, most significant first, in two's complement; a boolean is
  the integer 0 or 1; a string is its length as an unsigned integer, its bytes, and
  zero bytes up to the next multiple of four.
\<close>

datatype xdr = XInt int | XUInt nat | XBool bool | XString bytes

fun xdr_item :: "xdr \<Rightarrow> bytes" where
  "xdr_item (XInt i) = be32 (nat (i mod 4294967296))"
| "xdr_item (XUInt n) = be32 n"
| "xdr_item (XBool b) = be32 (if b then 1 else 0)"
| "xdr_item (XString s) = be32 (length s) @ s @ replicate ((4 - length s mod 4) mod 4) 0"

definition xdr_encode :: "xdr list \<Rightarrow> bytes" where
  "xdr_encode items = concat (map xdr_item items)"

definition utf8 :: "pystr \<Rightarrow> bytes" where
  "utf8 s = (case encode_str s of None \<Rightarrow> [] | Some b \<Rightarrow> b)"

fun str_bytes :: "pyval \<Rightarrow> bytes" where
  "str_bytes (PStr s) = utf8 s"
| "str_bytes v = []"

text \<open>
  A spoof host is set when the attribute holds a string that is not empty. The
  originating host of a record is the spoof host when one is set, and the host name of
  the machine otherwise; the metric name of a heartbeat is the literal \<open>heartbeat\<close>.
\<close>

fun spoof_host_set :: "pyval \<Rightarrow> bool" where
  "spoof_host_set (PStr s) = (s \<noteq> [])"
| "spoof_host_set v = False"

definition origin_host :: "gmetric \<Rightarrow> bytes" where
  "origin_host d =
     (if spoof_host_set (gm_spoof_host d) then str_bytes (gm_spoof_host d) else utf8 (myhost d))"

definition is_heartbeat :: "gmetric \<Rightarrow> bool" where
  "is_heartbeat d = (gm_spoof_heartbeat d = PBool True)"

definition metric_name :: "gmetric \<Rightarrow> bytes" where
  "metric_name d = (if is_heartbeat d then ascii ''heartbeat'' else str_bytes (gv_name d))"

fun type_name :: "pyval \<Rightarrow> bytes" where
  "type_name (PType t) = TypeEnum_value t"
| "type_name v = []"

fun slope_ordinal :: "pyval \<Rightarrow> nat" where
  "slope_ordinal (PSlope s) = nat (SlopeEnum_value s)"
| "slope_ordinal v = 0"

definition uint_of :: "pyval \<Rightarrow> nat" where
  "uint_of v = (case py_index v of None \<Rightarrow> 0 | Some n \<Rightarrow> nat n)"

definition value_layout :: "gmetric \<Rightarrow> xdr list" where
  "value_layout d =
     [XInt 133,
      XString (origin_host d),
      XString (metric_name d),
      XBool (spoof_host_set (gm_spoof_host d)),
      XString (ascii ''%s''),
      XString (str_bytes (gv_value d))]"

definition meta_fixed_layout :: "gmetric \<Rightarrow> xdr list" where
  "meta_fixed_layout d =
     [XInt 128,
      XString (origin_host d),
      XString (metric_name d),
      XBool (spoof_host_set (gm_spoof_host d)),
      XString (type_name (gv_type d)),
      XString (metric_name d),
      XString (str_bytes (gv_units d)),
      XUInt (slope_ordinal (gv_slope d)),
      XUInt (uint_of (gv_tmax d)),
      XUInt (uint_of (gv_dmax d))]"

text \<open>
  The extra pairs of a metadata record, in their fixed order: an optional string that
  is set and not empty gives one pair, each group element gives one \<open>GROUP\<close> pair, a
  heartbeat gives the last pair.
\<close>

fun optional_pair :: "string \<Rightarrow> pyval \<Rightarrow> (bytes \<times> bytes) list" where
  "optional_pair key (PStr s) = (if s \<noteq> [] then [(ascii key, utf8 s)] else [])"
| "optional_pair key v = []"

definition extra_pairs :: "gmetric \<Rightarrow> (bytes \<times> bytes) list" where
  "extra_pairs d =
     optional_pair ''CLUSTER'' (gm_cluster d)
     @ optional_pair ''DESC'' (gm_desc d)
     @ optional_pair ''TITLE'' (gm_title d)
     @ map (\<lambda>g. (ascii ''GROUP'', str_bytes g)) (elements (gm_group d))
     @ optional_pair ''SPOOF_HOST'' (gm_spoof_host d)
     @ (if is_heartbeat d then [(ascii ''SPOOF_HEARTBEAT'', ascii ''yes'')] else [])"

fun pair_items :: "(bytes \<times> bytes) list \<Rightarrow> xdr list" where
  "pair_items [] = []"
| "pair_items ((k, v) # ps) = XString k # XString v # pair_items ps"

definition meta_layout :: "gmetric \<Rightarrow> xdr list" where
  "meta_layout d =
     meta_fixed_layout d @ [XUInt (length (extra_pairs d))] @ pair_items (extra_pairs d)"

section \<open>Valid descriptors\<close>

text \<open>
  \<open>validated\<close>: every attribute holds a value that its check in \<open>__setattr__\<close> lets
  through. The object that \<open>__init__\<close> builds is validated, and an assignment keeps an
  object validated (lemmas \<open>validated_init\<close> and \<open>validated_setattr\<close>), so this is what
  holds of a descriptor all of whose assignments passed.
\<close>

definition validated :: "gmetric \<Rightarrow> bool" where
  "validated d =
     (check_gv_var ''name'' (gv_name d) = None
      \<and> check_gv_var ''value'' (gv_value d) = None
      \<and> check_gv_var ''type'' (gv_type d) = None
      \<and> check_gv_var ''units'' (gv_units d) = None
      \<and> check_gv_var ''slope'' (gv_slope d) = None
      \<and> check_gv_var ''tmax'' (gv_tmax d) = None
      \<and> check_gv_var ''dmax'' (gv_dmax d) = None
      \<and> check_gm_var ''cluster'' (gm_cluster d) = None
      \<and> check_gm_var ''group'' (gm_group d) = None
      \<and> check_gm_var ''desc'' (gm_desc d) = None
      \<and> check_gm_var ''title'' (gm_title d) = None
      \<and> check_gm_var ''spoof_host'' (gm_spoof_host d) = None
      \<and> check_gm_var ''spoof_heartbeat'' (gm_spoof_heartbeat d) = None)"

text \<open>
  What the checks leave open and the wire format needs. A string fits when it has a
  UTF-8 encoding of fewer than \<open>2^32\<close> bytes; an integer fits when it is in the unsigned
  32-bit range; a group fits when it is \<open>None\<close> or a list or tuple of strings that fit,
  short enough for the count of extra pairs to fit.
\<close>

fun str_fits :: "pyval \<Rightarrow> bool" where
  "str_fits (PStr s) = (case encode_str s of None \<Rightarrow> False | Some b \<Rightarrow> length b < 4294967296)"
| "str_fits v = False"

definition optional_str_fits :: "pyval \<Rightarrow> bool" where
  "optional_str_fits v = (v = PNone \<or> str_fits v)"

definition uint_fits :: "pyval \<Rightarrow> bool" where
  "uint_fits v = (case py_index v of None \<Rightarrow> False | Some n \<Rightarrow> 0 \<le> n \<and> n < 4294967296)"

fun group_fits :: "pyval \<Rightarrow> bool" where
  "group_fits PNone = True"
| "group_fits (PList xs) = (list_all str_fits xs \<and> length xs + 5 < 4294967296)"
| "group_fits (PTuple xs) = (list_all str_fits xs \<and> length xs + 5 < 4294967296)"
| "group_fits v = False"

definition meta_fits :: "gmetric \<Rightarrow> bool" where
  "meta_fits d =
     (str_fits (PStr (myhost d))
      \<and> optional_str_fits (gm_cluster d)
      \<and> optional_str_fits (gm_desc d)
      \<and> optional_str_fits (gm_title d)
      \<and> optional_str_fits (gm_spoof_host d)
      \<and> group_fits (gm_group d))"

definition wire_fits :: "gmetric \<Rightarrow> bool" where
  "wire_fits d =
     (str_fits (gv_name d)
      \<and> str_fits (gv_value d)
      \<and> str_fits (gv_units d)
      \<and> uint_fits (gv_tmax d)
      \<and> uint_fits (gv_dmax d)
      \<and> isinstance_bool (gm_spoof_heartbeat d)
      \<and> meta_fits d)"

definition valid :: "gmetric \<Rightarrow> bool" where
  "valid d = (validated d \<and> wire_fits d)"

text \<open>No optional string of the descriptor is the empty string.\<close>

definition no_empty_optional :: "gmetric \<Rightarrow> bool" where
  "no_empty_optional d =
     (gm_cluster d \<noteq> PStr [] \<and> gm_desc d \<noteq> PStr [] \<and> gm_title d \<noteq> PStr []
      \<and> gm_spoof_host d \<noteq> PStr [])"

text \<open>
  The attributes that \<open>__setattr__\<close> checks, and those among them that hold a string.
\<close>

definition public_names :: "string list" where
  "public_names =
     [''gv_name'', ''gv_value'', ''gv_type'', ''gv_units'', ''gv_slope'', ''gv_tmax'',
      ''gv_dmax'', ''gm_cluster'', ''gm_group'', ''gm_desc'', ''gm_title'', ''gm_spoof_host'',
      ''gm_spoof_heartbeat'']"

definition string_fields :: "string list" where
  "string_fields =
     [''gv_name'', ''gv_value'', ''gv_units'', ''gm_cluster'', ''gm_desc'', ''gm_title'']"

text \<open>
  The count that the metadata record announces according to section 4.2 of the
  specification: one for each of cluster, description, title and spoof host that is
  set (not \<open>None\<close>), one for each group element, one for a heartbeat.
\<close>

definition announced_count :: "gmetric \<Rightarrow> nat" where
  "announced_count d =
     (if gm_cluster d \<noteq> PNone then 1 else 0)
     + (if gm_desc d \<noteq> PNone then 1 else 0)
     + (if gm_title d \<noteq> PNone then 1 else 0)
     + (if gm_spoof_host d \<noteq> PNone then 1 else 0)
     + length (elements (gm_group d))
     + (if is_heartbeat d then 1 else 0)"

text \<open>
  A statement on the packer emits a sequence of XDR items when, on every buffer, it
  returns the buffer with the encoding of the items appended.
\<close>

definition emits :: "(bytes \<Rightarrow> error + bytes) \<Rightarrow> xdr list \<Rightarrow> bool" where
  "emits stmt items = (\<forall>buf. stmt buf = Inr (buf @ xdr_encode items))"

text \<open>
  A descriptor for the examples: the temperature metric of the module's docstring on
  a machine called \<open>host\<close>, and the same metric reported for a spoofed switch.
\<close>

definition temperature :: gmetric where
  "temperature =
     (Gmetric_init (ascii ''host''))
       \<lparr>gv_name := PStr (ascii ''temperature''), gv_value := PStr (ascii ''28''),
        gv_type := PType INT8, gv_units := PStr (ascii ''Celsius''),
        gv_slope := PSlope BOTH, gv_tmax := PInt 30, gv_dmax := PInt 360\<rparr>"

definition spoofed_temperature :: gmetric where
  "spoofed_temperature = temperature\<lparr>gm_spoof_host := PStr (ascii ''10.0.0.1:sw'')\<rparr>"

text \<open>
  The temperature metric after \<open>g.gm_cluster = ''\<close>; after \<open>g.gm_title = ''\<close> and
  \<open>g.gm_group = ['env']\<close>; and after \<open>g.gv_tmax = 2**32\<close>.
\<close>

definition empty_cluster :: gmetric where
  "empty_cluster = temperature\<lparr>gm_cluster := PStr []\<rparr>"

definition empty_title :: gmetric where
  "empty_title = temperature\<lparr>gm_group := PList [PStr (ascii ''env'')], gm_title := PStr []\<rparr>"

definition huge_tmax :: gmetric where
  "huge_tmax = temperature\<lparr>gv_tmax := PInt 4294967296\<rparr>"

text \<open>
  A world for the examples, in which every name resolves to the loopback address, no
  address is a multicast address and every socket operation succeeds; and a sender for
  the default port in that world, as \<open>Sender()\<close> builds it.
\<close>

definition quiet_world :: world where
  "quiet_world =
     \<lparr>gethostbyname = (\<lambda>h. Inr (ascii ''127.0.0.1'')),
      is_multicast = (\<lambda>ip. Inr False),
      os_accepts = (\<lambda>tr ev. True)\<rparr>"

definition loopback_sender :: sender where
  "loopback_sender = \<lparr>dstaddr = (ascii ''127.0.0.1'', 8649), ttl = 1, mysocket = False\<rparr>"

text \<open>
  What the value record needs of a descriptor. The originating host fits when the
  object that \<open>targethost\<close> ends up with is a string that fits: the spoof host when it
  is true, the host name of the machine otherwise. The value record fits when the
  originating host, the metric name (unless the descriptor is a heartbeat) and the
  value do.
\<close>

definition host_fits :: "gmetric \<Rightarrow> bool" where
  "host_fits d =
     (if truthy (gm_spoof_host d) then str_fits (gm_spoof_host d)
      else str_fits (PStr (myhost d)))"

definition value_fits :: "gmetric \<Rightarrow> bool" where
  "value_fits d =
     (host_fits d \<and> (is_heartbeat d \<or> str_fits (gv_name d)) \<and> str_fits (gv_value d))"

text \<open>
  What the metadata record of a heartbeat needs of the attributes that
  \<open>set_heartbeat\<close> leaves alone: the originating host fits, each of cluster,
  description and title that is true is a string that fits, and a group that is true
  fits.
\<close>

definition fits_if_true :: "pyval \<Rightarrow> bool" where
  "fits_if_true v = (if truthy v then str_fits v else True)"

definition heartbeat_meta_fits :: "gmetric \<Rightarrow> bool" where
  "heartbeat_meta_fits d =
     (host_fits d
      \<and> fits_if_true (gm_cluster d)
      \<and> fits_if_true (gm_desc d)
      \<and> fits_if_true (gm_title d)
      \<and> (if truthy (gm_group d) then group_fits (gm_group d) else True))"

text \<open>
  A statement on the packer fails when it raises on every buffer, succeeds when it
  returns on every buffer, and appends when every buffer it returns is the buffer it
  was given followed by more bytes.
\<close>

definition fails :: "(bytes \<Rightarrow> error + bytes) \<Rightarrow> bool" where
  "fails stmt = (\<forall>buf. \<exists>e. stmt buf = Inl e)"

definition succeeds :: "(bytes \<Rightarrow> error + bytes) \<Rightarrow> bool" where
  "succeeds stmt = (\<forall>buf. \<exists>buf'. stmt buf = Inr buf')"

definition appends :: "(bytes \<Rightarrow> error + bytes) \<Rightarrow> bool" where
  "appends stmt = (\<forall>buf buf'. stmt buf = Inr buf' \<longrightarrow> (\<exists>tail. buf' = buf @ tail))"

text \<open>
  The temperature metric after the assignment to \<open>gv_name\<close> of a string that holds one
  surrogate code point (U+D800); and after \<open>g.gm_group = [0]\<close>.
\<close>

definition surrogate_name :: gmetric where
  "surrogate_name = temperature\<lparr>gv_name := PStr [55296]\<rparr>"

definition zero_group :: gmetric where
  "zero_group = temperature\<lparr>gm_group := PList [PInt 0]\<rparr>"

section \<open>Properties\<close>

lemma Gmetric_init_assignments:
  "assign_all (d\<lparr>myhost := h\<rparr>) Gmetric_defaults = (None, (Gmetric_init h)\<lparr>attrs := attrs d\<rparr>)"
  by (simp add: Gmetric_defaults_def Gmetric_init_def setattr_def store_def check_attr_def
      check_gv_var_def check_gm_var_def check_containing_quot_def)

subsection \<open>Validated descriptors\<close>

lemmas check_defs = check_attr_def check_gv_var_def check_gm_var_def check_containing_quot_def

lemma validated_init: "validated (Gmetric_init h)"
  by (simp add: validated_def Gmetric_init_def check_defs)

lemma setattr_None:
  "setattr d name v = (None, d') \<Longrightarrow> d' = store d name v \<and> check_attr name v = None"
  unfolding setattr_def by (cases "check_attr name v") auto

lemma store_other: "name \<notin> set public_names \<Longrightarrow> store d name v = d\<lparr>attrs := (attrs d)(name \<mapsto> v)\<rparr>"
  by (simp add: store_def public_names_def)

lemma validated_attrs: "validated (d\<lparr>attrs := a\<rparr>) = validated d"
  by (simp add: validated_def)

lemma validated_setattr:
  assumes v: "validated d" and s: "setattr d name v = (None, d')"
  shows "validated d'"
proof (cases "name \<in> set public_names")
  case False
  then show ?thesis using v setattr_None[OF s] by (simp add: store_other validated_attrs)
next
  case True
  then consider "name = ''gv_name''" | "name = ''gv_value''" | "name = ''gv_type''"
    | "name = ''gv_units''" | "name = ''gv_slope''" | "name = ''gv_tmax''" | "name = ''gv_dmax''"
    | "name = ''gm_cluster''" | "name = ''gm_group''" | "name = ''gm_desc''" | "name = ''gm_title''"
    | "name = ''gm_spoof_host''" | "name = ''gm_spoof_heartbeat''"
    unfolding public_names_def by fastforce
  then show ?thesis
    using v setattr_None[OF s]
    by cases (simp_all add: store_def validated_def check_attr_def)
qed

subsection \<open>Assignment of a spoof host\<close>

lemma spoof_any_str: "setattr d ''gm_spoof_host'' (PStr s) = (None, d\<lparr>gm_spoof_host := PStr s\<rparr>)"
  by (simp add: setattr_def store_def check_attr_def check_gm_var_def split_colon_def)

text \<open>
  C1. The claim: the assignment of a malformed non-empty string (no colon, or nothing
  before or nothing after the first colon) to \<open>gm_spoof_host\<close> raises and leaves the
  attribute as it was. The code does otherwise: \<open>__validate_spoof_host__\<close> answers
  \<open>False\<close> for a malformed string and \<open>None\<close> for a well-formed one, \<open>__check_gm_var__\<close>
  raises when the answer is true, so no string is ever refused (lemma \<open>spoof_any_str\<close>).
  The three malformed strings below are assigned without an exception.
\<close>

theorem malformed_spoof_host_accepted:
  "setattr (Gmetric_init (ascii ''host'')) ''gm_spoof_host'' (PStr (ascii ''nocolon''))
     = (None, (Gmetric_init (ascii ''host''))\<lparr>gm_spoof_host := PStr (ascii ''nocolon'')\<rparr>)
   \<and> setattr (Gmetric_init (ascii ''host'')) ''gm_spoof_host'' (PStr (ascii '':alias''))
     = (None, (Gmetric_init (ascii ''host''))\<lparr>gm_spoof_host := PStr (ascii '':alias'')\<rparr>)
   \<and> setattr (Gmetric_init (ascii ''host'')) ''gm_spoof_host'' (PStr (ascii ''10.0.0.1:''))
     = (None, (Gmetric_init (ascii ''host''))\<lparr>gm_spoof_host := PStr (ascii ''10.0.0.1:'')\<rparr>)"
  by (simp add: setattr_def store_def check_attr_def check_gm_var_def split_colon_def ascii_def)

subsection \<open>Strings that contain a double quote\<close>

lemma check_string_field:
  assumes "name \<in> set string_fields" and "34 \<in> set s"
  shows "check_attr name (PStr s) = Some (ValueError '''')"
proof -
  from assms(2) have "s \<noteq> []" by auto
  with assms show ?thesis
    unfolding string_fields_def by (auto simp: check_defs)
qed

lemma check_group_quoted:
  "list_all isinstance_str xs \<Longrightarrow> PStr s \<in> set xs \<Longrightarrow> 34 \<in> set s
    \<Longrightarrow> check_group_elements xs = Some (ValueError '''')"
proof (induction xs)
  case Nil
  then show ?case by simp
next
  case (Cons x xs)
  from Cons.prems(1) obtain t where x: "x = PStr t" by (cases x) auto
  show ?case
  proof (cases "34 \<in> set t")
    case True
    then have "t \<noteq> []" by auto
    with True x show ?thesis by (simp add: check_containing_quot_def)
  next
    case False
    with Cons.prems x have "PStr s \<in> set xs" by auto
    with Cons False x show ?thesis by (simp add: check_containing_quot_def)
  qed
qed

lemma check_group_raises:
  "PStr s \<in> set xs \<Longrightarrow> 34 \<in> set s \<Longrightarrow> check_group_elements xs \<noteq> None"
proof (induction xs)
  case Nil
  then show ?case by simp
next
  case (Cons x xs)
  show ?case
  proof (cases "x = PStr s")
    case True
    from Cons.prems(2) have "s \<noteq> []" by auto
    with True Cons.prems(2) show ?thesis by (simp add: check_containing_quot_def)
  next
    case False
    with Cons have "check_group_elements xs \<noteq> None" by auto
    then show ?thesis by (auto split: sum.splits)
  qed
qed

text \<open>
  C4. A string that contains a double quote (code point 34) is refused by every string
  attribute: the assignment to \<open>gv_name\<close>, \<open>gv_value\<close>, \<open>gv_units\<close>, \<open>gm_cluster\<close>,
  \<open>gm_desc\<close> or \<open>gm_title\<close> raises \<open>ValueError\<close> and the object is what it was before;
  so does the assignment to \<open>gm_group\<close> of a list or tuple of strings one of which
  contains a double quote. When the list or tuple also holds objects that are no
  strings the assignment still raises and leaves the object as it was (the exception
  may then be the \<open>TypeError\<close> of the membership test on such an object).
\<close>

theorem quoted_string_rejected:
  assumes "34 \<in> set s"
  shows "(name \<in> set string_fields \<longrightarrow> setattr d name (PStr s) = (Some (ValueError ''''), d))
    \<and> ((g = PList xs \<or> g = PTuple xs) \<and> list_all isinstance_str xs \<and> PStr s \<in> set xs
         \<longrightarrow> setattr d ''gm_group'' g = (Some (ValueError ''''), d))
    \<and> ((g = PList xs \<or> g = PTuple xs) \<and> PStr s \<in> set xs
         \<longrightarrow> fst (setattr d ''gm_group'' g) \<noteq> None \<and> snd (setattr d ''gm_group'' g) = d)"
proof (intro conjI impI)
  assume "name \<in> set string_fields"
  then show "setattr d name (PStr s) = (Some (ValueError ''''), d)"
    using assms by (simp add: setattr_def check_string_field)
next
  assume a: "(g = PList xs \<or> g = PTuple xs) \<and> list_all isinstance_str xs \<and> PStr s \<in> set xs"
  then have "check_group_elements xs = Some (ValueError '''')"
    using assms check_group_quoted by blast
  with a show "setattr d ''gm_group'' g = (Some (ValueError ''''), d)"
    by (auto simp: setattr_def check_attr_def check_gm_var_def)
next
  assume a: "(g = PList xs \<or> g = PTuple xs) \<and> PStr s \<in> set xs"
  then have "check_group_elements xs \<noteq> None"
    using assms check_group_raises by blast
  then obtain e where "check_group_elements xs = Some e" by auto
  with a have "setattr d ''gm_group'' g = (Some e, d)"
    by (auto simp: setattr_def check_attr_def check_gm_var_def)
  then show "fst (setattr d ''gm_group'' g) \<noteq> None" "snd (setattr d ''gm_group'' g) = d"
    by simp_all
qed

theorem quoted_string_rejected_witness:
  "34 \<in> set [97, 34, 98::nat]
   \<and> ''gv_name'' \<in> set string_fields
   \<and> setattr (Gmetric_init (ascii ''host'')) ''gv_name'' (PStr [97, 34, 98])
       = (Some (ValueError ''''), Gmetric_init (ascii ''host''))
   \<and> list_all isinstance_str [PStr [103], PStr [97, 34, 98]]
   \<and> setattr (Gmetric_init (ascii ''host'')) ''gm_group'' (PList [PStr [103], PStr [97, 34, 98]])
       = (Some (ValueError ''''), Gmetric_init (ascii ''host''))"
  using quoted_string_rejected [of "[97, 34, 98]" "''gv_name''" "Gmetric_init (ascii ''host'')"
      "PList [PStr [103], PStr [97, 34, 98]]" "[PStr [103], PStr [97, 34, 98]]"]
  by (simp add: string_fields_def)

subsection \<open>What the packer emits\<close>

lemma xdr_encode_Nil: "xdr_encode [] = []"
  by (simp add: xdr_encode_def)

lemma xdr_encode_Cons: "xdr_encode (x # xs) = xdr_item x @ xdr_encode xs"
  by (simp add: xdr_encode_def)

lemma xdr_encode_append: "xdr_encode (xs @ ys) = xdr_encode xs @ xdr_encode ys"
  by (simp add: xdr_encode_def)

lemma emits_run_Nil: "emits (run []) []"
  by (simp add: emits_def xdr_encode_Nil)

lemma emits_run_Cons:
  assumes "emits stmt xs" and "emits (run stmts) ys"
  shows "emits (run (stmt # stmts)) (xs @ ys)"
  using assms by (simp add: emits_def xdr_encode_append)

lemma emits_run_append:
  assumes "emits (run as) xs" and "emits (run bs) ys"
  shows "emits (run (as @ bs)) (xs @ ys)"
proof -
  have "run (as @ bs) buf = (case run as buf of Inl e \<Rightarrow> Inl e | Inr b \<Rightarrow> run bs b)" for buf
    by (induction as arbitrary: buf) (auto split: sum.splits)
  with assms show ?thesis by (simp add: emits_def xdr_encode_append)
qed

lemma emits_run_single: "emits stmt xs \<Longrightarrow> emits (run [stmt]) xs"
  using emits_run_Cons [OF _ emits_run_Nil] by fastforce

lemma padding: "((n + 3) div 4) * 4 - n = (4 - n mod 4) mod (4::nat)"
proof -
  define q where "q = n div 4"
  define r where "r = n mod 4"
  have n: "n = q * 4 + r" and r: "r < 4" by (simp_all add: q_def r_def)
  have d: "(n + 3) div 4 = q + (r + 3) div 4" unfolding n by (simp add: add.assoc)
  have m: "n mod 4 = r" by (simp add: r_def)
  from r consider "r = 0" | "r = 1" | "r = 2" | "r = 3" by linarith
  then show ?thesis unfolding d m by cases (simp_all add: n)
qed

lemma emits_pack_int:
  "- 2147483648 \<le> x \<Longrightarrow> x < 2147483648 \<Longrightarrow> emits (pack_int x) [XInt x]"
  by (simp add: emits_def pack_int_def xdr_encode_def)

lemma emits_pack_uint:
  "py_index v = Some n \<Longrightarrow> 0 \<le> n \<Longrightarrow> n < 4294967296 \<Longrightarrow> emits (pack_uint v) [XUInt (nat n)]"
  by (simp add: emits_def pack_uint_def xdr_encode_def)

lemma emits_pack_uint_fits:
  "uint_fits v \<Longrightarrow> emits (pack_uint v) [XUInt (uint_of v)]"
  by (auto simp: uint_fits_def uint_of_def emits_def pack_uint_def xdr_encode_def split: option.splits)

lemma emits_pack_bool: "emits (pack_bool v) [XBool (truthy v)]"
  by (simp add: emits_def pack_bool_def xdr_encode_def be32_def)

lemma emits_pack_string:
  "length s < 4294967296 \<Longrightarrow> emits (pack_string s) [XString s]"
  by (simp add: emits_def pack_string_def pack_uint_def pack_fstring_def xdr_encode_def padding)

lemma emits_pack_encoded:
  "str_fits v \<Longrightarrow> emits (pack_encoded v) [XString (str_bytes v)]"
proof -
  assume a: "str_fits v"
  then obtain s where v: "v = PStr s" by (cases v) auto
  with a obtain b where b: "encode_str s = Some b" "length b < 4294967296"
    by (auto split: option.splits)
  then have "emits (pack_string b) [XString b]" by (simp add: emits_pack_string)
  with v b show ?thesis by (simp add: emits_def pack_encoded_def utf8_def)
qed

lemma ascii_fits [simp]: "length (ascii s) = length s"
  by (simp add: ascii_def)

lemma encode_ascii:
  "\<forall>c\<in>set s. c < 128 \<Longrightarrow> encode_str s = Some s"
  by (induction s) (simp_all add: utf8_char_def)

lemma encode_TypeEnum_value: "encode_str (TypeEnum_value t) = Some (TypeEnum_value t)"
  by (cases t) (simp_all add: utf8_char_def ascii_def)

lemma emits_pack_name:
  assumes "isinstance_bool (gm_spoof_heartbeat d)"
    and "\<not> is_heartbeat d \<Longrightarrow> str_fits (gv_name d)"
  shows "emits (pack_name d) [XString (metric_name d)]"
proof -
  from assms(1) obtain b where b: "gm_spoof_heartbeat d = PBool b"
    by (cases "gm_spoof_heartbeat d") auto
  show ?thesis
  proof (cases b)
    case True
    have "emits (pack_string (ascii ''heartbeat'')) [XString (ascii ''heartbeat'')]"
      by (rule emits_pack_string) simp
    with True b show ?thesis
      by (simp add: emits_def pack_name_def metric_name_def is_heartbeat_def)
  next
    case False
    with b assms(2) have "str_fits (gv_name d)" by (simp add: is_heartbeat_def)
    from emits_pack_encoded [OF this] False b show ?thesis
      by (simp add: emits_def pack_name_def metric_name_def is_heartbeat_def)
  qed
qed

lemma truthy_optional_str:
  "optional_str_fits v \<Longrightarrow> truthy v = spoof_host_set v"
  by (cases v) (auto simp: optional_str_fits_def)

lemma emits_pack_spoof_flag:
  assumes "optional_str_fits (gm_spoof_host d)"
  shows "emits (pack_spoof_flag d) [XBool (spoof_host_set (gm_spoof_host d))]"
proof (cases "truthy (gm_spoof_host d)")
  case False
  with assms emits_pack_bool [of "gm_spoof_host d"] show ?thesis
    by (simp add: emits_def pack_spoof_flag_def truthy_optional_str)
next
  case True
  with assms obtain s where s: "gm_spoof_host d = PStr s" "s \<noteq> []"
    by (cases "gm_spoof_host d") (auto simp: optional_str_fits_def)
  with emits_pack_bool [of "PBool True"] show ?thesis
    by (simp add: emits_def pack_spoof_flag_def)
qed

lemma emits_targethost:
  assumes "optional_str_fits (gm_spoof_host d)" and "str_fits (PStr (myhost d))"
  shows "emits (pack_encoded (targethost d)) [XString (origin_host d)]"
proof (cases "truthy (gm_spoof_host d)")
  case True
  with assms(1) have f: "str_fits (gm_spoof_host d)" "spoof_host_set (gm_spoof_host d)"
    by (auto simp: optional_str_fits_def truthy_optional_str)
  from emits_pack_encoded [OF f(1)] True f(2) show ?thesis
    by (simp add: targethost_def origin_host_def)
next
  case False
  with assms(1) have "\<not> spoof_host_set (gm_spoof_host d)"
    by (simp add: truthy_optional_str)
  with emits_pack_encoded [OF assms(2)] False show ?thesis
    by (simp add: targethost_def origin_host_def)
qed

lemma emits_py_str:
  assumes "str_fits v"
  shows "emits (\<lambda>buf. case py_str v of Inl e \<Rightarrow> Inl e | Inr x \<Rightarrow> pack_encoded x buf)
           [XString (str_bytes v)]"
proof -
  from assms obtain s where "v = PStr s" by (cases v) auto
  with emits_pack_encoded [OF assms] show ?thesis by simp
qed

subsection \<open>The value record\<close>

lemma get_valuebuf_emits:
  assumes "str_fits (PStr (myhost d))" and "optional_str_fits (gm_spoof_host d)"
    and "isinstance_bool (gm_spoof_heartbeat d)"
    and "\<not> is_heartbeat d \<Longrightarrow> str_fits (gv_name d)"
    and "str_fits (gv_value d)"
  shows "get_valuebuf d = Inr (xdr_encode (value_layout d))"
proof -
  have 1: "emits (pack_int (128 + 5)) [XInt 133]"
    using emits_pack_int [of 133] by simp
  have 5: "emits (pack_string (ascii ''%s'')) [XString (ascii ''%s'')]"
    by (rule emits_pack_string) simp
  note steps = 1 emits_targethost [OF assms(2) assms(1)] emits_pack_name [OF assms(3) assms(4)]
    emits_pack_spoof_flag [OF assms(2)] 5 emits_py_str [OF assms(5)]
  have "emits (run [pack_int (128 + 5), pack_encoded (targethost d), pack_name d,
          pack_spoof_flag d, pack_string (ascii ''%s''),
          (\<lambda>buf. case py_str (gv_value d) of Inl e \<Rightarrow> Inl e | Inr v \<Rightarrow> pack_encoded v buf)])
        ([XInt 133] @ [XString (origin_host d)] @ [XString (metric_name d)]
          @ [XBool (spoof_host_set (gm_spoof_host d))] @ [XString (ascii ''%s'')]
          @ [XString (str_bytes (gv_value d))] @ [])"
    by (intro emits_run_Cons emits_run_Nil steps)
  then show ?thesis
    by (simp add: get_valuebuf_def value_layout_def emits_def)
qed

lemmas fits_defs = valid_def validated_def wire_fits_def meta_fits_def optional_str_fits_def
  uint_fits_def

lemmas eval_defs = temperature_def spoofed_temperature_def Gmetric_init_def ascii_def
  utf8_char_def utf8_def split_colon_def

lemma valid_temperature: "valid temperature"
  by (simp add: fits_defs check_defs eval_defs)

lemma valid_spoofed_temperature: "valid spoofed_temperature"
  by (simp add: fits_defs check_defs eval_defs)

subsection \<open>The metadata record\<close>

lemma emits_pack_pair:
  assumes "str_fits v" and "length key < 4294967296"
  shows "emits (run (pack_pair key v)) [XString (ascii key), XString (str_bytes v)]"
proof -
  have "emits (pack_string (ascii key)) [XString (ascii key)]"
    using assms(2) by (intro emits_pack_string) simp
  from emits_run_Cons [OF this emits_run_single [OF emits_pack_encoded [OF assms(1)]]]
  show ?thesis by (simp add: pack_pair_def)
qed

lemma optional_pair_truthy:
  "optional_str_fits v \<Longrightarrow> truthy v \<Longrightarrow> optional_pair key v = [(ascii key, str_bytes v)]"
  by (cases v) (auto simp: optional_str_fits_def)

lemma optional_pair_falsy:
  "optional_str_fits v \<Longrightarrow> \<not> truthy v \<Longrightarrow> optional_pair key v = []"
  by (cases v) (auto simp: optional_str_fits_def)

lemma emits_pack_if_set:
  assumes "optional_str_fits v" and "length key < 4294967296"
  shows "emits (run (pack_if_set key v)) (pair_items (optional_pair key v))"
proof (cases "truthy v")
  case True
  with assms(1) have "str_fits v" by (auto simp: optional_str_fits_def)
  from emits_pack_pair [OF this assms(2)] True assms(1) show ?thesis
    by (simp add: pack_if_set_def optional_pair_truthy)
next
  case False
  with assms(1) emits_run_Nil show ?thesis
    by (simp add: pack_if_set_def optional_pair_falsy)
qed

lemma emits_group_pairs:
  "list_all str_fits xs \<Longrightarrow>
     emits (run (concat (map (pack_pair ''GROUP'') xs)))
       (pair_items (map (\<lambda>g. (ascii ''GROUP'', str_bytes g)) xs))"
proof (induction xs)
  case Nil
  show ?case by (simp add: emits_def xdr_encode_Nil)
next
  case (Cons x xs)
  then have x: "str_fits x" and xs: "list_all str_fits xs" by simp_all
  have "emits (run (pack_pair ''GROUP'' x)) [XString (ascii ''GROUP''), XString (str_bytes x)]"
    by (rule emits_pack_pair [OF x]) simp
  from emits_run_append [OF this Cons.IH [OF xs]] show ?case by simp
qed

lemma emits_pack_group:
  assumes "group_fits (gm_group d)"
  shows "emits (pack_group d)
           (pair_items (map (\<lambda>g. (ascii ''GROUP'', str_bytes g)) (elements (gm_group d))))"
proof (cases "gm_group d")
  case PNone
  then show ?thesis by (simp add: pack_group_def emits_def xdr_encode_Nil)
next
  case (PList xs)
  with assms have "list_all str_fits xs" by simp
  from emits_group_pairs [OF this] PList show ?thesis
    by (cases xs) (simp_all add: pack_group_def emits_def xdr_encode_Nil)
next
  case (PTuple xs)
  with assms have "list_all str_fits xs" by simp
  from emits_group_pairs [OF this] PTuple show ?thesis
    by (cases xs) (simp_all add: pack_group_def emits_def xdr_encode_Nil)
qed (use assms in simp_all)

lemma count_mlen_announced:
  assumes "group_fits (gm_group d)" and "isinstance_bool (gm_spoof_heartbeat d)"
  shows "count_mlen d = Inr (announced_count d)"
proof -
  from assms(2) obtain b where b: "gm_spoof_heartbeat d = PBool b"
    by (cases "gm_spoof_heartbeat d") auto
  from assms(1) have "(if truthy (gm_group d) then py_len (gm_group d) else Inr 0)
      = Inr (length (elements (gm_group d)))"
    by (cases "gm_group d") auto
  with b show ?thesis
    by (simp add: count_mlen_def announced_count_def is_heartbeat_def)
qed

lemma announced_count_bound:
  "group_fits (gm_group d) \<Longrightarrow> announced_count d < 4294967296"
  by (cases "gm_group d") (auto simp: announced_count_def)

lemma pair_items_append: "pair_items (ps @ qs) = pair_items ps @ pair_items qs"
  by (induction ps rule: pair_items.induct) simp_all

lemma emits_type:
  assumes "in_TypeEnum v"
  shows "emits (\<lambda>buf. case attr_value v of Inl e \<Rightarrow> Inl e | Inr x \<Rightarrow> pack_encoded x buf)
           [XString (type_name v)]"
proof -
  from assms obtain t where v: "v = PType t" by (cases v) auto
  have "length (TypeEnum_value t) < 4294967296" by (cases t) simp_all
  then have "str_fits (PStr (TypeEnum_value t))" by (simp add: encode_TypeEnum_value)
  from emits_pack_encoded [OF this] v show ?thesis
    by (simp add: utf8_def encode_TypeEnum_value)
qed

lemma emits_slope:
  assumes "in_SlopeEnum v"
  shows "emits (\<lambda>buf. case attr_value v of Inl e \<Rightarrow> Inl e | Inr x \<Rightarrow> pack_uint x buf)
           [XUInt (slope_ordinal v)]"
proof -
  from assms obtain s where v: "v = PSlope s" by (cases v) auto
  have "0 \<le> SlopeEnum_value s" "SlopeEnum_value s < 4294967296" by (cases s; simp)+
  then have "emits (pack_uint (PInt (SlopeEnum_value s))) [XUInt (nat (SlopeEnum_value s))]"
    by (intro emits_pack_uint) simp_all
  with v show ?thesis by simp
qed

lemma get_meta_value_buf_emits:
  assumes "wire_fits d" and "in_TypeEnum (gv_type d)" and "in_SlopeEnum (gv_slope d)"
  shows "emits (get_meta_value_buf d)
           ([XString (metric_name d)] @ [XBool (spoof_host_set (gm_spoof_host d))]
            @ [XString (type_name (gv_type d))] @ [XString (metric_name d)]
            @ [XString (str_bytes (gv_units d))] @ [XUInt (slope_ordinal (gv_slope d))]
            @ [XUInt (uint_of (gv_tmax d))] @ [XUInt (uint_of (gv_dmax d))] @ [])"
proof -
  from assms(1) have f: "isinstance_bool (gm_spoof_heartbeat d)" "str_fits (gv_name d)"
    "optional_str_fits (gm_spoof_host d)" "str_fits (gv_units d)" "uint_fits (gv_tmax d)"
    "uint_fits (gv_dmax d)"
    by (simp_all add: wire_fits_def meta_fits_def)
  note steps = emits_pack_name [OF f(1) f(2)] emits_pack_spoof_flag [OF f(3)]
    emits_type [OF assms(2)] emits_pack_encoded [OF f(4)] emits_slope [OF assms(3)]
    emits_pack_uint_fits [OF f(5)] emits_pack_uint_fits [OF f(6)]
  show ?thesis
    unfolding get_meta_value_buf_def
    by (intro emits_run_Cons emits_run_Nil steps)
qed

lemma emits_heartbeat_pair:
  assumes "isinstance_bool (gm_spoof_heartbeat d)"
  shows "emits (run (if truthy (gm_spoof_heartbeat d)
                     then [pack_string (ascii ''SPOOF_HEARTBEAT''), pack_string (ascii ''yes'')]
                     else []))
           (pair_items (if is_heartbeat d then [(ascii ''SPOOF_HEARTBEAT'', ascii ''yes'')] else []))"
proof -
  from assms obtain b where b: "gm_spoof_heartbeat d = PBool b"
    by (cases "gm_spoof_heartbeat d") auto
  have 1: "emits (pack_string (ascii ''SPOOF_HEARTBEAT'')) [XString (ascii ''SPOOF_HEARTBEAT'')]"
    by (rule emits_pack_string) simp
  have 2: "emits (pack_string (ascii ''yes'')) [XString (ascii ''yes'')]"
    by (rule emits_pack_string) simp
  from emits_run_Cons [OF 1 emits_run_single [OF 2]] b show ?thesis
    by (cases b) (simp_all add: is_heartbeat_def emits_def xdr_encode_Nil)
qed

lemma get_meta_meta_buf_emits:
  assumes "meta_fits d" and "isinstance_bool (gm_spoof_heartbeat d)"
  shows "emits (get_meta_meta_buf d) ([XUInt (announced_count d)] @ pair_items (extra_pairs d))"
proof -
  from assms(1) have f: "optional_str_fits (gm_cluster d)" "optional_str_fits (gm_desc d)"
    "optional_str_fits (gm_title d)" "optional_str_fits (gm_spoof_host d)"
    "group_fits (gm_group d)"
    by (simp_all add: meta_fits_def)
  have c: "emits (run [pack_uint (PInt (int (announced_count d)))]) [XUInt (announced_count d)]"
    using emits_pack_uint [of "PInt (int (announced_count d))" "int (announced_count d)"]
      announced_count_bound [OF f(5)]
    by (intro emits_run_single) simp
  have "emits (run ([pack_uint (PInt (int (announced_count d)))]
               @ pack_if_set ''CLUSTER'' (gm_cluster d)
               @ pack_if_set ''DESC'' (gm_desc d)
               @ pack_if_set ''TITLE'' (gm_title d)
               @ [pack_group d]
               @ pack_if_set ''SPOOF_HOST'' (gm_spoof_host d)
               @ (if truthy (gm_spoof_heartbeat d)
                  then [pack_string (ascii ''SPOOF_HEARTBEAT''), pack_string (ascii ''yes'')]
                  else [])))
          ([XUInt (announced_count d)]
           @ pair_items (optional_pair ''CLUSTER'' (gm_cluster d))
           @ pair_items (optional_pair ''DESC'' (gm_desc d))
           @ pair_items (optional_pair ''TITLE'' (gm_title d))
           @ pair_items (map (\<lambda>g. (ascii ''GROUP'', str_bytes g)) (elements (gm_group d)))
           @ pair_items (optional_pair ''SPOOF_HOST'' (gm_spoof_host d))
           @ pair_items (if is_heartbeat d then [(ascii ''SPOOF_HEARTBEAT'', ascii ''yes'')] else []))"
    by (intro emits_run_append c emits_pack_if_set f emits_run_single emits_pack_group
        emits_heartbeat_pair assms(2)) simp_all
  then show ?thesis
    using count_mlen_announced [OF f(5) assms(2)]
    by (simp add: get_meta_meta_buf_def extra_pairs_def pair_items_append emits_def)
qed

lemma get_metabuf_emits:
  assumes "wire_fits d" and "in_TypeEnum (gv_type d)" and "in_SlopeEnum (gv_slope d)"
  shows "get_metabuf d
    = Inr (xdr_encode (meta_fixed_layout d @ [XUInt (announced_count d)]
             @ pair_items (extra_pairs d)))"
proof -
  from assms(1) have f: "meta_fits d" "isinstance_bool (gm_spoof_heartbeat d)"
    "optional_str_fits (gm_spoof_host d)" "str_fits (PStr (myhost d))"
    by (simp_all add: wire_fits_def meta_fits_def)
  have 1: "emits (pack_int 128) [XInt 128]"
    by (rule emits_pack_int) simp_all
  have "emits (run [pack_int 128, pack_encoded (targethost d), get_meta_value_buf d,
                    get_meta_meta_buf d])
          ([XInt 128] @ [XString (origin_host d)]
            @ ([XString (metric_name d)] @ [XBool (spoof_host_set (gm_spoof_host d))]
              @ [XString (type_name (gv_type d))] @ [XString (metric_name d)]
              @ [XString (str_bytes (gv_units d))] @ [XUInt (slope_ordinal (gv_slope d))]
              @ [XUInt (uint_of (gv_tmax d))] @ [XUInt (uint_of (gv_dmax d))] @ [])
            @ ([XUInt (announced_count d)] @ pair_items (extra_pairs d)) @ [])"
    by (intro emits_run_Cons emits_run_Nil 1 emits_targethost [OF f(3) f(4)]
        get_meta_value_buf_emits [OF assms] get_meta_meta_buf_emits [OF f(1) f(2)])
  then show ?thesis
    by (simp add: get_metabuf_def meta_fixed_layout_def emits_def)
qed

lemma optional_pair_count:
  "optional_str_fits v \<Longrightarrow> v \<noteq> PStr [] \<Longrightarrow>
     length (optional_pair key v) = (if v \<noteq> PNone then 1 else 0)"
  by (cases v) (auto simp: optional_str_fits_def)

lemma announced_count_pairs:
  assumes "meta_fits d" and "no_empty_optional d"
  shows "announced_count d = length (extra_pairs d)"
  using assms
  by (simp add: announced_count_def extra_pairs_def meta_fits_def no_empty_optional_def
      optional_pair_count)

lemma get_metabuf_layout:
  assumes "valid d" and "no_empty_optional d"
  shows "get_metabuf d = Inr (xdr_encode (meta_layout d))"
proof -
  from assms(1) have w: "wire_fits d" and t: "in_TypeEnum (gv_type d)"
    and s: "in_SlopeEnum (gv_slope d)"
    by (auto simp: valid_def validated_def check_gv_var_def split: if_splits)
  from w have "meta_fits d" by (simp add: wire_fits_def)
  from get_metabuf_emits [OF w t s] announced_count_pairs [OF this assms(2)]
  show ?thesis by (simp add: meta_layout_def)
qed

lemma announced_count_excess:
  assumes "meta_fits d"
  shows "announced_count d
    = length (extra_pairs d)
      + length (filter (\<lambda>v. v = PStr []) [gm_cluster d, gm_desc d, gm_title d, gm_spoof_host d])"
proof -
  have 1: "(if v \<noteq> PNone then 1 else 0)
      = length (optional_pair key v) + (if v = PStr [] then 1 else (0::nat))"
    if "optional_str_fits v" for v key
    using that by (cases v) (auto simp: optional_str_fits_def)
  from assms have f: "optional_str_fits (gm_cluster d)" "optional_str_fits (gm_desc d)"
    "optional_str_fits (gm_title d)" "optional_str_fits (gm_spoof_host d)"
    by (simp_all add: meta_fits_def)
  show ?thesis
    unfolding announced_count_def extra_pairs_def
    using 1 [OF f(1), of "''CLUSTER''"] 1 [OF f(2), of "''DESC''"] 1 [OF f(3), of "''TITLE''"]
      1 [OF f(4), of "''SPOOF_HOST''"]
    by simp
qed

lemmas layout_defs = meta_fixed_layout_def origin_host_def metric_name_def is_heartbeat_def
  uint_of_def announced_count_def extra_pairs_def

text \<open>
  C2. The claim: for every valid descriptor the metadata record consists, in order, of
  the integer 128, the originating host, the metric name (\<open>heartbeat\<close> for a
  heartbeat), the spoof flag, the lower-case type name, the metric name a second time,
  the units, the slope ordinal, tmax, dmax, the count of extra pairs, and then the pairs
  in the order CLUSTER, DESC, TITLE, one GROUP pair for each group element, SPOOF_HOST,
  SPOOF_HEARTBEAT. The code does this for every valid descriptor none of whose optional
  strings is empty (lemma \<open>get_metabuf_layout\<close>). It does not when one is the empty
  string: \<open>__get_meta_meta_buf__\<close> counts an attribute that \<open>is not None\<close> and packs
  a pair only for an attribute that is true. After \<open>g.gm_cluster = ''\<close>, which the
  checks let through, the record ends with the count 1 and no pair follows it.
\<close>

theorem empty_cluster_counted_without_pair:
  "setattr temperature ''gm_cluster'' (PStr []) = (None, empty_cluster)
   \<and> valid empty_cluster
   \<and> get_metabuf empty_cluster
       = Inr (xdr_encode [XInt 128, XString (ascii ''host''), XString (ascii ''temperature''),
                XBool False, XString (ascii ''int8''), XString (ascii ''temperature''),
                XString (ascii ''Celsius''), XUInt 3, XUInt 30, XUInt 360, XUInt 1])"
proof -
  have v: "valid empty_cluster"
    by (simp add: empty_cluster_def fits_defs check_defs eval_defs)
  then have "wire_fits empty_cluster" by (simp add: valid_def)
  then have g: "get_metabuf empty_cluster
    = Inr (xdr_encode (meta_fixed_layout empty_cluster @ [XUInt (announced_count empty_cluster)]
             @ pair_items (extra_pairs empty_cluster)))"
    by (rule get_metabuf_emits) (simp_all add: empty_cluster_def eval_defs)
  have l: "meta_fixed_layout empty_cluster @ [XUInt (announced_count empty_cluster)]
             @ pair_items (extra_pairs empty_cluster)
    = [XInt 128, XString (ascii ''host''), XString (ascii ''temperature''),
       XBool False, XString (ascii ''int8''), XString (ascii ''temperature''),
       XString (ascii ''Celsius''), XUInt 3, XUInt 30, XUInt 360, XUInt 1]"
    by (simp add: layout_defs empty_cluster_def eval_defs)
  have a: "setattr temperature ''gm_cluster'' (PStr []) = (None, empty_cluster)"
    by (simp add: setattr_def store_def check_defs empty_cluster_def)
  from a v g [unfolded l] show ?thesis by blast
qed

text \<open>
  C10. The claim: for every descriptor that passed validation, the count of extra pairs
  written into the metadata record is the number of pairs that follow it, also when an
  optional string is empty. The code writes the number of pairs plus the number of
  optional strings that are empty (lemmas \<open>get_metabuf_emits\<close> and
  \<open>announced_count_excess\<close>). After \<open>g.gm_group = ['env']\<close> and \<open>g.gm_title = ''\<close>
  the record announces two pairs and holds one, the GROUP pair.
\<close>

theorem empty_title_count_exceeds_pairs:
  "assign_all temperature [(''gm_group'', PList [PStr (ascii ''env'')]), (''gm_title'', PStr [])]
     = (None, empty_title)
   \<and> valid empty_title
   \<and> get_metabuf empty_title
       = Inr (xdr_encode [XInt 128, XString (ascii ''host''), XString (ascii ''temperature''),
                XBool False, XString (ascii ''int8''), XString (ascii ''temperature''),
                XString (ascii ''Celsius''), XUInt 3, XUInt 30, XUInt 360,
                XUInt 2, XString (ascii ''GROUP''), XString (ascii ''env'')])"
proof -
  have v: "valid empty_title"
    by (simp add: empty_title_def fits_defs check_defs eval_defs)
  then have "wire_fits empty_title" by (simp add: valid_def)
  then have g: "get_metabuf empty_title
    = Inr (xdr_encode (meta_fixed_layout empty_title @ [XUInt (announced_count empty_title)]
             @ pair_items (extra_pairs empty_title)))"
    by (rule get_metabuf_emits) (simp_all add: empty_title_def eval_defs)
  have l: "meta_fixed_layout empty_title @ [XUInt (announced_count empty_title)]
             @ pair_items (extra_pairs empty_title)
    = [XInt 128, XString (ascii ''host''), XString (ascii ''temperature''),
       XBool False, XString (ascii ''int8''), XString (ascii ''temperature''),
       XString (ascii ''Celsius''), XUInt 3, XUInt 30, XUInt 360,
       XUInt 2, XString (ascii ''GROUP''), XString (ascii ''env'')]"
    by (simp add: layout_defs empty_title_def eval_defs numeral_2_eq_2)
  have a: "assign_all temperature
      [(''gm_group'', PList [PStr (ascii ''env'')]), (''gm_title'', PStr [])] = (None, empty_title)"
    by (simp add: setattr_def store_def check_defs empty_title_def ascii_def)
  from a v g [unfolded l] show ?thesis by blast
qed

subsection \<open>The heartbeat transform\<close>

lemma set_heartbeat_result:
  "set_heartbeat d =
     (None, d\<lparr>gv_name := PStr (ascii ''heartbeat''), gv_type := PType UINT32,
              gv_value := PStr (ascii ''0''), gv_units := PStr [], gv_slope := PSlope ZERO,
              gv_tmax := PInt 0, gv_dmax := PInt 0, gm_spoof_heartbeat := PBool True\<rparr>)"
  by (simp add: set_heartbeat_def setattr_def store_def check_defs ascii_def)

subsection \<open>The encoder on validated descriptors\<close>

text \<open>
  C8, as stated, fails: the check of \<open>gv_tmax\<close> is \<open>int(value) < 0\<close>, which lets
  \<open>2**32\<close> through, and \<open>pack_uint\<close> has no encoding for it. The assignment
  \<open>g.gv_tmax = 2**32\<close> returns, the descriptor is validated, and \<open>get_metabuf\<close>
  raises.
\<close>

theorem huge_tmax_encoder_fails:
  "setattr temperature ''gv_tmax'' (PInt 4294967296) = (None, huge_tmax)
   \<and> validated huge_tmax
   \<and> get_metabuf huge_tmax = Inl ConversionError"
proof -
  have a: "setattr temperature ''gv_tmax'' (PInt 4294967296) = (None, huge_tmax)"
    by (simp add: setattr_def store_def check_defs huge_tmax_def)
  have v: "validated huge_tmax"
    by (simp add: huge_tmax_def validated_def check_defs eval_defs)
  have g: "get_metabuf huge_tmax = Inl ConversionError"
    by (simp add: get_metabuf_def get_meta_value_buf_def pack_int_def pack_encoded_def
        pack_string_def pack_uint_def pack_fstring_def pack_name_def pack_spoof_flag_def
        pack_bool_def targethost_def huge_tmax_def eval_defs)
  from a v g show ?thesis by blast
qed

text \<open>
  C8, amended. For every descriptor whose attributes passed their checks and fit the
  wire format (\<open>gv_tmax\<close> and \<open>gv_dmax\<close> are integers from 0 to \<open>2^32 - 1\<close>, the
  elements of the group are strings, the spoof host is \<open>None\<close> or a string, every
  string and the host name have a UTF-8 encoding of fewer than \<open>2^32\<close> bytes, and the
  group has fewer than \<open>2^32 - 5\<close> elements), \<open>get_metabuf\<close> and \<open>get_valuebuf\<close> both
  return a buffer. The consistency of heartbeat and spoof host is not needed for that.
\<close>

theorem encoder_returns:
  assumes "valid d"
  shows "(\<exists>buf. get_metabuf d = Inr buf) \<and> (\<exists>buf. get_valuebuf d = Inr buf)"
proof -
  from assms have w: "wire_fits d" and t: "in_TypeEnum (gv_type d)"
    and s: "in_SlopeEnum (gv_slope d)"
    by (auto simp: valid_def validated_def check_gv_var_def split: if_splits)
  from get_metabuf_emits [OF w t s] have "\<exists>buf. get_metabuf d = Inr buf" by blast
  moreover from w have "get_valuebuf d = Inr (xdr_encode (value_layout d))"
    by (intro get_valuebuf_emits) (simp_all add: wire_fits_def meta_fits_def)
  ultimately show ?thesis by blast
qed

theorem encoder_returns_witness:
  "valid temperature
   \<and> (\<exists>buf. get_metabuf temperature = Inr buf) \<and> (\<exists>buf. get_valuebuf temperature = Inr buf)"
  using encoder_returns [OF valid_temperature] valid_temperature by simp

subsection \<open>The sender\<close>

text \<open>
  C6. For a descriptor whose \<open>gm_spoof_heartbeat\<close> is \<open>True\<close> and whose spoof host is
  not set (\<open>None\<close>, or empty), \<open>send\<close> raises
  \<open>ValueError('spoof-heatbeat needs spoof-host')\<close>, which is the module's
  inconsistent-spoof-state error, and leaves the sender and the trace as they were: no
  socket is created and no datagram is sent.
\<close>

theorem send_heartbeat_needs_spoof_host:
  assumes "gm_spoof_heartbeat d = PBool True" and "\<not> truthy (gm_spoof_host d)"
  shows "send w s (AGmetric d) tr = (Some (ValueError ''spoof-heatbeat needs spoof-host''), s, tr)"
  using assms by (simp add: send_def)

theorem send_heartbeat_needs_spoof_host_witness:
  "gm_spoof_heartbeat (snd (set_heartbeat temperature)) = PBool True
   \<and> \<not> truthy (gm_spoof_host (snd (set_heartbeat temperature)))
   \<and> send quiet_world loopback_sender (AGmetric (snd (set_heartbeat temperature))) []
       = (Some (ValueError ''spoof-heatbeat needs spoof-host''), loopback_sender, [])"
proof -
  have 1: "gm_spoof_heartbeat (snd (set_heartbeat temperature)) = PBool True"
    and 2: "\<not> truthy (gm_spoof_host (snd (set_heartbeat temperature)))"
    by (simp_all add: set_heartbeat_result eval_defs)
  from send_heartbeat_needs_spoof_host [OF 1 2] 1 2 show ?thesis by blast
qed

text \<open>
  C7. \<open>Sender(dsthost, dstport, ttl)\<close> with a port below 1 or above 65535 raises
  \<open>ValueError('')\<close>, the module's invalid-port error, before anything happens in the
  world: the trace is unchanged, so no socket exists and the host was not even
  resolved. With a port from 1 to 65535 the check passes, and the constructor goes on
  to resolve the host; it creates no socket either.
\<close>

theorem Sender_init_port:
  "(dstport < 1 \<or> 65535 < dstport
      \<longrightarrow> Sender_init w dsthost dstport t tr = (Inl (ValueError ''''), tr))
   \<and> (1 \<le> dstport \<and> dstport \<le> 65535
      \<longrightarrow> Sender_init w dsthost dstport t tr
          = (case gethostbyname w dsthost of
               Inl e \<Rightarrow> (Inl e, tr @ [Resolve dsthost])
             | Inr ip \<Rightarrow>
                 (Inr \<lparr>dstaddr = (ip, dstport), ttl = t, mysocket = False\<rparr>,
                  tr @ [Resolve dsthost])))"
  by (auto simp: Sender_init_def)

theorem Sender_init_port_witness:
  "Sender_init quiet_world (ascii ''localhost'') 0 1 [] = (Inl (ValueError ''''), [])
   \<and> Sender_init quiet_world (ascii ''localhost'') 70000 1 [] = (Inl (ValueError ''''), [])
   \<and> Sender_init quiet_world (ascii ''localhost'') 8649 1 []
       = (Inr loopback_sender, [Resolve (ascii ''localhost'')])"
proof -
  have "Sender_init quiet_world (ascii ''localhost'') 0 1 [] = (Inl (ValueError ''''), [])"
    using Sender_init_port [of 0 quiet_world "ascii ''localhost''" 1 "[]"] by simp
  moreover have "Sender_init quiet_world (ascii ''localhost'') 70000 1 [] = (Inl (ValueError ''''), [])"
    using Sender_init_port [of 70000 quiet_world "ascii ''localhost''" 1 "[]"] by simp
  moreover have "Sender_init quiet_world (ascii ''localhost'') 8649 1 []
       = (Inr loopback_sender, [Resolve (ascii ''localhost'')])"
    using Sender_init_port [of 8649 quiet_world "ascii ''localhost''" 1 "[]"]
    by (simp add: quiet_world_def loopback_sender_def)
  ultimately show ?thesis by blast
qed

lemma datagrams_append: "datagrams (tr @ tr') = datagrams tr @ datagrams tr'"
  by (induction tr rule: datagrams.induct) simp_all

lemma create_socket_keeps:
  assumes "create_socket w s tr = (r, s', tr')"
  shows "dstaddr s' = dstaddr s \<and> datagrams tr' = datagrams tr"
  using assms
  by (auto simp: create_socket_def syscall_def Let_def datagrams_append
      split: if_splits sum.splits)

lemma send_returns:
  assumes "send w s (AGmetric d) tr = (None, s', tr')"
  shows "\<exists>mbuf vbuf. get_metabuf d = Inr mbuf \<and> get_valuebuf d = Inr vbuf
     \<and> datagrams tr' = datagrams tr @ [(mbuf, dstaddr s), (vbuf, dstaddr s)]
     \<and> dstaddr s' = dstaddr s"
proof -
  from assms obtain mbuf where m: "get_metabuf d = Inr mbuf"
    by (cases "get_metabuf d") (auto simp: send_def split: if_splits)
  from assms m obtain vbuf where v: "get_valuebuf d = Inr vbuf"
    by (cases "get_valuebuf d") (auto simp: send_def split: if_splits)
  obtain r s1 tr1 where c: "(if \<not> mysocket s then create_socket w s tr else (None, s, tr)) = (r, s1, tr1)"
    by (metis prod_cases3)
  then have k: "dstaddr s1 = dstaddr s \<and> datagrams tr1 = datagrams tr"
    using create_socket_keeps by (auto split: if_splits)
  from assms m v c have "r = None \<and> s' = s1
      \<and> tr' = tr1 @ [SendTo mbuf (dstaddr s1), SendTo vbuf (dstaddr s1)]"
    by (cases r) (auto simp: send_def syscall_def split: if_splits)
  with k m v show ?thesis by (simp add: datagrams_append)
qed

text \<open>
  C9. A \<open>send\<close> that returns has added exactly two datagrams to those of the trace:
  first the metadata record of the descriptor, then its value record, both to the
  address of the sender. Hence two sends that return, one after the other on the same
  sender, add four datagrams in the order metadata 1, value 1, metadata 2, value 2.
\<close>

theorem send_two_datagrams:
  "(send w s (AGmetric d) tr = (None, s', tr')
      \<longrightarrow> (\<exists>mbuf vbuf. get_metabuf d = Inr mbuf \<and> get_valuebuf d = Inr vbuf
            \<and> datagrams tr' = datagrams tr @ [(mbuf, dstaddr s), (vbuf, dstaddr s)]))
   \<and> (send w s (AGmetric d1) tr = (None, s1, tr1) \<and> send w s1 (AGmetric d2) tr1 = (None, s2, tr2)
      \<longrightarrow> (\<exists>m1 v1 m2 v2. get_metabuf d1 = Inr m1 \<and> get_valuebuf d1 = Inr v1
            \<and> get_metabuf d2 = Inr m2 \<and> get_valuebuf d2 = Inr v2
            \<and> datagrams tr2 = datagrams tr @ [(m1, dstaddr s), (v1, dstaddr s),
                                              (m2, dstaddr s), (v2, dstaddr s)]))"
proof (intro conjI impI)
  assume "send w s (AGmetric d) tr = (None, s', tr')"
  from send_returns [OF this]
  show "\<exists>mbuf vbuf. get_metabuf d = Inr mbuf \<and> get_valuebuf d = Inr vbuf
            \<and> datagrams tr' = datagrams tr @ [(mbuf, dstaddr s), (vbuf, dstaddr s)]"
    by blast
next
  assume a: "send w s (AGmetric d1) tr = (None, s1, tr1) \<and> send w s1 (AGmetric d2) tr1 = (None, s2, tr2)"
  from a send_returns [of w s d1 tr s1 tr1] obtain m1 v1 where
    1: "get_metabuf d1 = Inr m1" "get_valuebuf d1 = Inr v1"
      "datagrams tr1 = datagrams tr @ [(m1, dstaddr s), (v1, dstaddr s)]" "dstaddr s1 = dstaddr s"
    by blast
  from a send_returns [of w s1 d2 tr1 s2 tr2] obtain m2 v2 where
    2: "get_metabuf d2 = Inr m2" "get_valuebuf d2 = Inr v2"
      "datagrams tr2 = datagrams tr1 @ [(m2, dstaddr s1), (v2, dstaddr s1)]"
    by blast
  from 1 2 show "\<exists>m1 v1 m2 v2. get_metabuf d1 = Inr m1 \<and> get_valuebuf d1 = Inr v1
            \<and> get_metabuf d2 = Inr m2 \<and> get_valuebuf d2 = Inr v2
            \<and> datagrams tr2 = datagrams tr @ [(m1, dstaddr s), (v1, dstaddr s),
                                              (m2, dstaddr s), (v2, dstaddr s)]"
    by simp
qed

lemma send_temperature:
  "send quiet_world loopback_sender (AGmetric temperature) []
     = (None, loopback_sender\<lparr>mysocket := True\<rparr>,
        [SocketCreated,
         SendTo (xdr_encode (meta_layout temperature)) (ascii ''127.0.0.1'', 8649),
         SendTo (xdr_encode (value_layout temperature)) (ascii ''127.0.0.1'', 8649)])"
proof -
  have m: "get_metabuf temperature = Inr (xdr_encode (meta_layout temperature))"
    by (rule get_metabuf_layout [OF valid_temperature])
      (simp add: no_empty_optional_def eval_defs)
  have v: "get_valuebuf temperature = Inr (xdr_encode (value_layout temperature))"
    using valid_temperature
    by (intro get_valuebuf_emits) (simp_all add: valid_def wire_fits_def meta_fits_def)
  have t: "\<not> truthy (gm_spoof_heartbeat temperature)"
    by (simp add: eval_defs)
  show ?thesis
    by (simp add: send_def m v t create_socket_def syscall_def quiet_world_def
        loopback_sender_def)
qed

lemma send_spoofed_temperature:
  "send quiet_world (loopback_sender\<lparr>mysocket := True\<rparr>) (AGmetric spoofed_temperature) tr
     = (None, loopback_sender\<lparr>mysocket := True\<rparr>,
        tr @ [SendTo (xdr_encode (meta_layout spoofed_temperature)) (ascii ''127.0.0.1'', 8649),
              SendTo (xdr_encode (value_layout spoofed_temperature)) (ascii ''127.0.0.1'', 8649)])"
proof -
  have m: "get_metabuf spoofed_temperature = Inr (xdr_encode (meta_layout spoofed_temperature))"
    by (rule get_metabuf_layout [OF valid_spoofed_temperature])
      (simp add: no_empty_optional_def eval_defs)
  have v: "get_valuebuf spoofed_temperature = Inr (xdr_encode (value_layout spoofed_temperature))"
    using valid_spoofed_temperature
    by (intro get_valuebuf_emits) (simp_all add: valid_def wire_fits_def meta_fits_def)
  have t: "\<not> truthy (gm_spoof_heartbeat spoofed_temperature)"
    by (simp add: eval_defs)
  show ?thesis
    by (simp add: send_def m v t syscall_def quiet_world_def loopback_sender_def)
qed

theorem send_two_datagrams_witness:
  "send quiet_world loopback_sender (AGmetric temperature) []
     = (None, loopback_sender\<lparr>mysocket := True\<rparr>,
        [SocketCreated,
         SendTo (xdr_encode (meta_layout temperature)) (ascii ''127.0.0.1'', 8649),
         SendTo (xdr_encode (value_layout temperature)) (ascii ''127.0.0.1'', 8649)])
   \<and> (\<exists>tr2. send quiet_world (loopback_sender\<lparr>mysocket := True\<rparr>)
              (AGmetric spoofed_temperature)
              [SocketCreated,
               SendTo (xdr_encode (meta_layout temperature)) (ascii ''127.0.0.1'', 8649),
               SendTo (xdr_encode (value_layout temperature)) (ascii ''127.0.0.1'', 8649)]
            = (None, loopback_sender\<lparr>mysocket := True\<rparr>, tr2)
          \<and> (\<exists>m1 v1 m2 v2.
                get_metabuf temperature = Inr m1 \<and> get_valuebuf temperature = Inr v1
              \<and> get_metabuf spoofed_temperature = Inr m2
              \<and> get_valuebuf spoofed_temperature = Inr v2
              \<and> datagrams tr2 = [(m1, dstaddr loopback_sender), (v1, dstaddr loopback_sender),
                                 (m2, dstaddr loopback_sender), (v2, dstaddr loopback_sender)]))"
proof -
  let ?s1 = "loopback_sender\<lparr>mysocket := True\<rparr>"
  let ?tr1 = "[SocketCreated,
         SendTo (xdr_encode (meta_layout temperature)) (ascii ''127.0.0.1'', 8649),
         SendTo (xdr_encode (value_layout temperature)) (ascii ''127.0.0.1'', 8649)]"
  let ?tr2 = "?tr1 @ [SendTo (xdr_encode (meta_layout spoofed_temperature)) (ascii ''127.0.0.1'', 8649),
              SendTo (xdr_encode (value_layout spoofed_temperature)) (ascii ''127.0.0.1'', 8649)]"
  note a = send_temperature
  note b = send_spoofed_temperature [of ?tr1]
  from send_two_datagrams [of quiet_world loopback_sender temperature "[]" ?s1 ?tr1
      temperature ?s1 ?tr1 spoofed_temperature ?s1 ?tr2] a b
  have "\<exists>m1 v1 m2 v2.
                get_metabuf temperature = Inr m1 \<and> get_valuebuf temperature = Inr v1
              \<and> get_metabuf spoofed_temperature = Inr m2
              \<and> get_valuebuf spoofed_temperature = Inr v2
              \<and> datagrams ?tr2 = [(m1, dstaddr loopback_sender), (v1, dstaddr loopback_sender),
                                 (m2, dstaddr loopback_sender), (v2, dstaddr loopback_sender)]"
    by simp
  with a b show ?thesis by blast
qed

subsection \<open>Statements that fail, succeed or append\<close>

lemma fails_run_here: "fails stmt \<Longrightarrow> fails (run (stmt # stmts))"
  by (auto simp: fails_def split: sum.splits) (metis sum.distinct(1))

lemma fails_run_later: "emits stmt xs \<Longrightarrow> fails (run stmts) \<Longrightarrow> fails (run (stmt # stmts))"
  by (simp add: fails_def emits_def)

lemma fails_not_Inr: "fails stmt \<Longrightarrow> stmt buf \<noteq> Inr buf'"
  by (metis fails_def sum.distinct(1))

lemma fails_pack_encoded:
  assumes "\<not> str_fits v"
  shows "fails (pack_encoded v)"
proof (cases v)
  case (PStr s)
  show ?thesis
  proof (cases "encode_str s")
    case None
    with PStr show ?thesis by (simp add: fails_def pack_encoded_def)
  next
    case (Some b)
    with PStr assms have "\<not> length b < 4294967296" by simp
    with PStr Some show ?thesis
      by (simp add: fails_def pack_encoded_def pack_string_def pack_uint_def)
  qed
qed (simp_all add: fails_def pack_encoded_def)

lemma truthy_fits_set: "truthy v \<Longrightarrow> str_fits v \<Longrightarrow> spoof_host_set v"
  by (cases v) auto

lemma falsy_not_set: "\<not> truthy v \<Longrightarrow> \<not> spoof_host_set v"
  by (cases v) auto

lemma emits_targethost_host_fits:
  assumes "host_fits d"
  shows "emits (pack_encoded (targethost d)) [XString (origin_host d)]"
proof (cases "truthy (gm_spoof_host d)")
  case True
  with assms have f: "str_fits (gm_spoof_host d)" by (simp add: host_fits_def)
  from emits_pack_encoded [OF f] True truthy_fits_set [OF True f] show ?thesis
    by (simp add: targethost_def origin_host_def)
next
  case False
  with assms have f: "str_fits (PStr (myhost d))" by (simp add: host_fits_def)
  from emits_pack_encoded [OF f] False falsy_not_set [OF False] show ?thesis
    by (simp add: targethost_def origin_host_def)
qed

lemma fails_targethost:
  assumes "\<not> host_fits d"
  shows "fails (pack_encoded (targethost d))"
proof -
  from assms have "\<not> str_fits (targethost d)"
    by (simp add: host_fits_def targethost_def split: if_splits)
  then show ?thesis by (rule fails_pack_encoded)
qed

lemma emits_spoof_flag_host_fits:
  assumes "host_fits d"
  shows "emits (pack_spoof_flag d) [XBool (spoof_host_set (gm_spoof_host d))]"
proof (cases "truthy (gm_spoof_host d)")
  case False
  with emits_pack_bool [of "gm_spoof_host d"] falsy_not_set [OF False] show ?thesis
    by (simp add: emits_def pack_spoof_flag_def)
next
  case True
  with assms have f: "str_fits (gm_spoof_host d)" by (simp add: host_fits_def)
  then obtain s where s: "gm_spoof_host d = PStr s" by (cases "gm_spoof_host d") auto
  with True have "s \<noteq> []" by simp
  with s emits_pack_bool [of "PBool True"] show ?thesis
    by (simp add: emits_def pack_spoof_flag_def)
qed

lemma fails_pack_name:
  assumes "isinstance_bool (gm_spoof_heartbeat d)" and "\<not> is_heartbeat d"
    and "\<not> str_fits (gv_name d)"
  shows "fails (pack_name d)"
proof -
  from assms(1,2) have "\<not> truthy (gm_spoof_heartbeat d)"
    by (cases "gm_spoof_heartbeat d") (auto simp: is_heartbeat_def)
  with fails_pack_encoded [OF assms(3)] show ?thesis
    by (simp add: fails_def pack_name_def)
qed

lemma fails_py_str:
  assumes "\<not> str_fits v"
  shows "fails (\<lambda>buf. case py_str v of Inl e \<Rightarrow> Inl e | Inr x \<Rightarrow> pack_encoded x buf)"
proof (cases v)
  case (PStr s)
  with fails_pack_encoded [OF assms] show ?thesis by (simp add: fails_def)
qed (simp_all add: fails_def)

lemma validated_heartbeat_bool: "validated d \<Longrightarrow> isinstance_bool (gm_spoof_heartbeat d)"
  by (auto simp: validated_def check_gm_var_def split: if_splits)

subsection \<open>The value record of a validated descriptor\<close>

lemma get_valuebuf_fits:
  assumes "isinstance_bool (gm_spoof_heartbeat d)" and "value_fits d"
  shows "get_valuebuf d = Inr (xdr_encode (value_layout d))"
proof -
  from assms(2) have h: "host_fits d" and n: "\<not> is_heartbeat d \<Longrightarrow> str_fits (gv_name d)"
    and v: "str_fits (gv_value d)"
    by (auto simp: value_fits_def)
  have 1: "emits (pack_int (128 + 5)) [XInt 133]"
    using emits_pack_int [of 133] by simp
  have 5: "emits (pack_string (ascii ''%s'')) [XString (ascii ''%s'')]"
    by (rule emits_pack_string) simp
  note steps = 1 emits_targethost_host_fits [OF h] emits_pack_name [OF assms(1) n]
    emits_spoof_flag_host_fits [OF h] 5 emits_py_str [OF v]
  have "emits (run [pack_int (128 + 5), pack_encoded (targethost d), pack_name d,
          pack_spoof_flag d, pack_string (ascii ''%s''),
          (\<lambda>buf. case py_str (gv_value d) of Inl e \<Rightarrow> Inl e | Inr v \<Rightarrow> pack_encoded v buf)])
        ([XInt 133] @ [XString (origin_host d)] @ [XString (metric_name d)]
          @ [XBool (spoof_host_set (gm_spoof_host d))] @ [XString (ascii ''%s'')]
          @ [XString (str_bytes (gv_value d))] @ [])"
    by (intro emits_run_Cons emits_run_Nil steps)
  then show ?thesis
    by (simp add: get_valuebuf_def value_layout_def emits_def)
qed

lemma get_valuebuf_not_fits:
  assumes b: "isinstance_bool (gm_spoof_heartbeat d)" and "\<not> value_fits d"
  shows "\<exists>e. get_valuebuf d = Inl e"
proof -
  have 1: "emits (pack_int (128 + 5)) [XInt 133]"
    using emits_pack_int [of 133] by simp
  have 5: "emits (pack_string (ascii ''%s'')) [XString (ascii ''%s'')]"
    by (rule emits_pack_string) simp
  let ?last = "\<lambda>buf. case py_str (gv_value d) of Inl e \<Rightarrow> Inl e | Inr v \<Rightarrow> pack_encoded v buf"
  have "fails (run [pack_int (128 + 5), pack_encoded (targethost d), pack_name d,
          pack_spoof_flag d, pack_string (ascii ''%s''), ?last])"
  proof (cases "host_fits d")
    case False
    show ?thesis
      by (intro fails_run_later [OF 1] fails_run_here fails_targethost [OF False])
  next
    case h: True
    show ?thesis
    proof (cases "is_heartbeat d \<or> str_fits (gv_name d)")
      case False
      then have "fails (pack_name d)" using fails_pack_name [OF b] by blast
      then show ?thesis
        by (intro fails_run_later [OF 1] fails_run_later [OF emits_targethost_host_fits [OF h]]
            fails_run_here)
    next
      case True
      then have n: "\<not> is_heartbeat d \<Longrightarrow> str_fits (gv_name d)" by blast
      from assms(2) h True have "\<not> str_fits (gv_value d)" by (simp add: value_fits_def)
      then have "fails ?last" by (rule fails_py_str)
      then show ?thesis
        by (intro fails_run_later [OF 1] fails_run_later [OF emits_targethost_host_fits [OF h]]
            fails_run_later [OF emits_pack_name [OF b n]]
            fails_run_later [OF emits_spoof_flag_host_fits [OF h]] fails_run_later [OF 5]
            fails_run_here)
    qed
  qed
  then show ?thesis by (simp add: get_valuebuf_def fails_def)
qed

text \<open>
  C3, as stated, fails: a descriptor that passed validation need not have a value
  record. The check of \<open>gv_name\<close> asks for a string without a double quote, which a
  string that holds a surrogate code point is, and \<open>str.encode\<close> has no encoding for
  it: the assignment returns, the descriptor is validated, and \<open>get_valuebuf\<close> raises
  \<open>UnicodeEncodeError\<close>.
\<close>

theorem surrogate_name_valuebuf_fails:
  "setattr temperature ''gv_name'' (PStr [55296]) = (None, surrogate_name)
   \<and> validated surrogate_name
   \<and> get_valuebuf surrogate_name = Inl UnicodeEncodeError"
proof -
  have a: "setattr temperature ''gv_name'' (PStr [55296]) = (None, surrogate_name)"
    by (simp add: setattr_def store_def check_defs surrogate_name_def)
  have v: "validated surrogate_name"
    by (simp add: surrogate_name_def validated_def check_defs eval_defs)
  have g: "get_valuebuf surrogate_name = Inl UnicodeEncodeError"
    by (simp add: get_valuebuf_def pack_int_def pack_encoded_def pack_string_def pack_uint_def
        pack_fstring_def pack_name_def targethost_def surrogate_name_def eval_defs)
  from a v g show ?thesis by blast
qed

text \<open>
  C3, amended. For every descriptor that passed validation, \<open>get_valuebuf\<close> returns a
  buffer exactly when the originating host, the metric name (unless the descriptor is
  a heartbeat) and the value are strings with a UTF-8 encoding of fewer than \<open>2^32\<close>
  bytes, and it raises otherwise. The buffer it returns consists, in order, of the
  integer 133, the originating host as a string (the spoof host when it is set and not
  empty, the host name of the machine otherwise), the metric name as a string (the
  literal \<open>heartbeat\<close> for a heartbeat), the boolean that is true iff the spoof host is
  set and not empty, the string \<open>%s\<close> whatever the declared type, and the value as a
  string.
\<close>

theorem get_valuebuf_layout:
  assumes "validated d"
  shows "(value_fits d \<longrightarrow> get_valuebuf d = Inr (xdr_encode (value_layout d)))
    \<and> (\<not> value_fits d \<longrightarrow> (\<exists>e. get_valuebuf d = Inl e))"
  using get_valuebuf_fits get_valuebuf_not_fits validated_heartbeat_bool [OF assms] by blast

lemma validated_surrogate_name: "validated surrogate_name"
  by (simp add: surrogate_name_def validated_def check_defs eval_defs)

theorem get_valuebuf_layout_witness:
  "validated spoofed_temperature \<and> value_fits spoofed_temperature
   \<and> get_valuebuf spoofed_temperature
       = Inr (xdr_encode [XInt 133, XString (ascii ''10.0.0.1:sw''),
                XString (ascii ''temperature''), XBool True, XString (ascii ''%s''),
                XString (ascii ''28'')])
   \<and> validated surrogate_name \<and> \<not> value_fits surrogate_name
   \<and> (\<exists>e. get_valuebuf surrogate_name = Inl e)"
proof -
  have v1: "validated spoofed_temperature"
    using valid_spoofed_temperature by (simp add: valid_def)
  have f1: "value_fits spoofed_temperature"
    by (simp add: value_fits_def host_fits_def is_heartbeat_def eval_defs)
  have l: "value_layout spoofed_temperature
    = [XInt 133, XString (ascii ''10.0.0.1:sw''), XString (ascii ''temperature''), XBool True,
       XString (ascii ''%s''), XString (ascii ''28'')]"
    by (simp add: value_layout_def origin_host_def metric_name_def is_heartbeat_def eval_defs)
  have f2: "\<not> value_fits surrogate_name"
    by (simp add: value_fits_def host_fits_def is_heartbeat_def surrogate_name_def eval_defs)
  from get_valuebuf_layout [OF v1] get_valuebuf_layout [OF validated_surrogate_name]
    v1 f1 f2 validated_surrogate_name
  show ?thesis unfolding l by blast
qed

subsection \<open>The metadata record after the heartbeat transform\<close>

lemma run_append:
  "run (as @ bs) buf = (case run as buf of Inl e \<Rightarrow> Inl e | Inr b \<Rightarrow> run bs b)"
  by (induction as arbitrary: buf) (auto split: sum.splits)

lemma appends_pack_uint: "appends (pack_uint v)"
  by (auto simp: appends_def pack_uint_def split: option.splits if_splits)

lemma appends_pack_string: "appends (pack_string s)"
  by (auto simp: appends_def pack_string_def pack_uint_def pack_fstring_def split: if_splits)

lemma appends_pack_encoded: "appends (pack_encoded v)"
  using appends_pack_string
  by (auto simp: appends_def pack_encoded_def split: sum.splits)

lemma appends_run: "\<forall>s\<in>set stmts. appends s \<Longrightarrow> appends (run stmts)"
proof (induction stmts)
  case Nil
  show ?case by (simp add: appends_def)
next
  case (Cons s stmts)
  then have s: "appends s" and r: "appends (run stmts)" by simp_all
  show ?case
    unfolding appends_def
  proof (intro allI impI)
    fix buf buf'
    assume a: "run (s # stmts) buf = Inr buf'"
    then obtain b where b: "s buf = Inr b" "run stmts b = Inr buf'"
      by (cases "s buf") auto
    from s b(1) obtain t1 where "b = buf @ t1" by (auto simp: appends_def)
    moreover from r b(2) obtain t2 where "buf' = b @ t2" by (auto simp: appends_def)
    ultimately show "\<exists>tail. buf' = buf @ tail" by simp
  qed
qed

lemma appends_pack_pairs: "\<forall>s\<in>set (concat (map (pack_pair key) xs)). appends s"
  by (induction xs) (auto simp: pack_pair_def appends_pack_string appends_pack_encoded)

lemma appends_pack_group: "appends (pack_group d)"
proof -
  have "appends (run (concat (map (pack_pair ''GROUP'') xs)))" for xs
    by (rule appends_run [OF appends_pack_pairs])
  then show ?thesis
    by (auto simp: appends_def pack_group_def split: if_splits sum.splits)
qed

lemma appends_pack_if_set: "\<forall>s\<in>set (pack_if_set key v). appends s"
  by (auto simp: pack_if_set_def pack_pair_def appends_pack_string appends_pack_encoded)

lemma appends_get_meta_meta_buf: "appends (get_meta_meta_buf d)"
proof -
  have "appends (run ([pack_uint (PInt (int mlen))]
               @ pack_if_set ''CLUSTER'' (gm_cluster d)
               @ pack_if_set ''DESC'' (gm_desc d)
               @ pack_if_set ''TITLE'' (gm_title d)
               @ [pack_group d]
               @ pack_if_set ''SPOOF_HOST'' (gm_spoof_host d)
               @ (if truthy (gm_spoof_heartbeat d)
                  then [pack_string (ascii ''SPOOF_HEARTBEAT''), pack_string (ascii ''yes'')]
                  else [])))" for mlen
    using appends_pack_if_set
    by (intro appends_run) (auto simp: appends_pack_uint appends_pack_group appends_pack_string)
  then have r: "run ([pack_uint (PInt (int mlen))]
               @ pack_if_set ''CLUSTER'' (gm_cluster d)
               @ pack_if_set ''DESC'' (gm_desc d)
               @ pack_if_set ''TITLE'' (gm_title d)
               @ [pack_group d]
               @ pack_if_set ''SPOOF_HOST'' (gm_spoof_host d)
               @ (if truthy (gm_spoof_heartbeat d)
                  then [pack_string (ascii ''SPOOF_HEARTBEAT''), pack_string (ascii ''yes'')]
                  else [])) buf = Inr buf' \<Longrightarrow> \<exists>tail. buf' = buf @ tail" for mlen buf buf'
    unfolding appends_def by blast
  show ?thesis
    unfolding appends_def
  proof (intro allI impI)
    fix buf buf'
    assume a: "get_meta_meta_buf d buf = Inr buf'"
    show "\<exists>tail. buf' = buf @ tail"
    proof (cases "count_mlen d")
      case (Inl e)
      with a show ?thesis unfolding get_meta_meta_buf_def by (simp only: sum.case) simp
    next
      case (Inr mlen)
      with a show ?thesis unfolding get_meta_meta_buf_def by (simp only: sum.case) (rule r)
    qed
  qed
qed

lemma emits_succeeds: "emits s xs \<Longrightarrow> succeeds s"
  by (simp add: emits_def succeeds_def)

lemma succeeds_run: "\<forall>s\<in>set stmts. succeeds s \<Longrightarrow> succeeds (run stmts)"
proof (induction stmts)
  case Nil
  show ?case by (simp add: succeeds_def)
next
  case (Cons s stmts)
  then have s: "succeeds s" and r: "succeeds (run stmts)" by simp_all
  show ?case
    unfolding succeeds_def
  proof
    fix buf
    from s obtain b where b: "s buf = Inr b" by (auto simp: succeeds_def)
    from r obtain b' where "run stmts b = Inr b'" by (auto simp: succeeds_def)
    with b show "\<exists>buf'. run (s # stmts) buf = Inr buf'" by simp
  qed
qed

lemma succeeds_pack_if_set:
  assumes "fits_if_true v" and "length key < 4294967296"
  shows "\<forall>s\<in>set (pack_if_set key v). succeeds s"
proof (cases "truthy v")
  case True
  with assms(1) have f: "str_fits v" by (simp add: fits_if_true_def)
  have "emits (pack_string (ascii key)) [XString (ascii key)]"
    using assms(2) by (intro emits_pack_string) simp
  then have "succeeds (pack_string (ascii key))" by (rule emits_succeeds)
  with emits_succeeds [OF emits_pack_encoded [OF f]] True show ?thesis
    by (simp add: pack_if_set_def pack_pair_def)
next
  case False
  then show ?thesis by (simp add: pack_if_set_def)
qed

lemma succeeds_pack_group:
  assumes "if truthy (gm_group d) then group_fits (gm_group d) else True"
  shows "succeeds (pack_group d)"
proof (cases "truthy (gm_group d)")
  case True
  with assms have "group_fits (gm_group d)" by simp
  from emits_succeeds [OF emits_pack_group [OF this]] show ?thesis .
next
  case False
  then show ?thesis by (simp add: succeeds_def pack_group_def)
qed

lemma count_mlen_small:
  assumes "if truthy (gm_group d) then group_fits (gm_group d) else True"
  shows "\<exists>n. count_mlen d = Inr n \<and> n < 4294967296"
proof -
  have 4: "length (filter (\<lambda>gmelement. gmelement \<noteq> PNone)
                    [gm_cluster d, gm_desc d, gm_title d, gm_spoof_host d]) \<le> 4"
    by (rule order_trans [OF length_filter_le]) simp
  have "\<exists>n. (if truthy (gm_group d) then py_len (gm_group d) else Inr 0) = Inr n
      \<and> n + 5 < 4294967296"
  proof (cases "truthy (gm_group d)")
    case True
    with assms have "group_fits (gm_group d)" by simp
    with True show ?thesis by (cases "gm_group d") auto
  next
    case False
    then show ?thesis by simp
  qed
  then obtain n where n: "(if truthy (gm_group d) then py_len (gm_group d) else Inr 0) = Inr n"
    "n + 5 < 4294967296" by blast
  from 4 n(2) show ?thesis
    unfolding count_mlen_def Let_def n(1) by auto
qed

lemma succeeds_get_meta_meta_buf:
  assumes "fits_if_true (gm_cluster d)" and "fits_if_true (gm_desc d)"
    and "fits_if_true (gm_title d)" and "fits_if_true (gm_spoof_host d)"
    and "if truthy (gm_group d) then group_fits (gm_group d) else True"
  shows "succeeds (get_meta_meta_buf d)"
proof -
  from count_mlen_small [OF assms(5)] obtain n where n: "count_mlen d = Inr n" "n < 4294967296"
    by blast
  have "emits (pack_uint (PInt (int n))) [XUInt (nat (int n))]"
    using n(2) by (intro emits_pack_uint) simp_all
  then have u: "succeeds (pack_uint (PInt (int n)))" by (rule emits_succeeds)
  have "emits (pack_string (ascii ''SPOOF_HEARTBEAT'')) [XString (ascii ''SPOOF_HEARTBEAT'')]"
    by (rule emits_pack_string) simp
  then have h1: "succeeds (pack_string (ascii ''SPOOF_HEARTBEAT''))" by (rule emits_succeeds)
  have "emits (pack_string (ascii ''yes'')) [XString (ascii ''yes'')]"
    by (rule emits_pack_string) simp
  then have h2: "succeeds (pack_string (ascii ''yes''))" by (rule emits_succeeds)
  have "succeeds (run ([pack_uint (PInt (int n))]
               @ pack_if_set ''CLUSTER'' (gm_cluster d)
               @ pack_if_set ''DESC'' (gm_desc d)
               @ pack_if_set ''TITLE'' (gm_title d)
               @ [pack_group d]
               @ pack_if_set ''SPOOF_HOST'' (gm_spoof_host d)
               @ (if truthy (gm_spoof_heartbeat d)
                  then [pack_string (ascii ''SPOOF_HEARTBEAT''), pack_string (ascii ''yes'')]
                  else [])))"
    using succeeds_pack_if_set [OF assms(1), of "''CLUSTER''"]
      succeeds_pack_if_set [OF assms(2), of "''DESC''"]
      succeeds_pack_if_set [OF assms(3), of "''TITLE''"]
      succeeds_pack_if_set [OF assms(4), of "''SPOOF_HOST''"]
      succeeds_pack_group [OF assms(5)] u h1 h2
    by (intro succeeds_run) auto
  then show ?thesis
    unfolding succeeds_def get_meta_meta_buf_def by (simp only: n(1) sum.case) simp
qed

lemma host_fits_spoof: "host_fits d \<Longrightarrow> fits_if_true (gm_spoof_host d)"
  by (simp add: host_fits_def fits_if_true_def split: if_splits)

lemma heartbeat_fixed_emits:
  assumes "host_fits d"
  shows "emits (run [pack_int 128, pack_encoded (targethost (snd (set_heartbeat d))),
                     get_meta_value_buf (snd (set_heartbeat d))])
           [XInt 128, XString (origin_host d), XString (ascii ''heartbeat''),
            XBool (spoof_host_set (gm_spoof_host d)), XString (ascii ''uint32''),
            XString (ascii ''heartbeat''), XString [], XUInt 0, XUInt 0, XUInt 0]"
proof -
  define d' where "d' = snd (set_heartbeat d)"
  have d': "d' = d\<lparr>gv_name := PStr (ascii ''heartbeat''), gv_type := PType UINT32,
              gv_value := PStr (ascii ''0''), gv_units := PStr [], gv_slope := PSlope ZERO,
              gv_tmax := PInt 0, gv_dmax := PInt 0, gm_spoof_heartbeat := PBool True\<rparr>"
    by (simp add: d'_def set_heartbeat_result)
  have "host_fits d' = host_fits d" by (simp add: d' host_fits_def)
  with assms have h: "host_fits d'" by simp
  have o: "origin_host d' = origin_host d" "gm_spoof_host d' = gm_spoof_host d"
    by (simp_all add: d' origin_host_def)
  have 1: "emits (pack_int 128) [XInt 128]"
    by (rule emits_pack_int) simp_all
  have n: "emits (pack_name d') [XString (ascii ''heartbeat'')]"
    using emits_pack_name [of d'] by (simp add: d' metric_name_def is_heartbeat_def)
  have t: "emits (\<lambda>buf. case attr_value (gv_type d') of Inl e \<Rightarrow> Inl e
                          | Inr v \<Rightarrow> pack_encoded v buf) [XString (ascii ''uint32'')]"
    using emits_type [of "gv_type d'"] by (simp add: d')
  have u: "emits (pack_encoded (gv_units d')) [XString []]"
    using emits_pack_encoded [of "gv_units d'"] by (simp add: d' utf8_def)
  have s: "emits (\<lambda>buf. case attr_value (gv_slope d') of Inl e \<Rightarrow> Inl e
                          | Inr v \<Rightarrow> pack_uint v buf) [XUInt 0]"
    using emits_slope [of "gv_slope d'"] by (simp add: d')
  have x: "emits (pack_uint (gv_tmax d')) [XUInt 0]" "emits (pack_uint (gv_dmax d')) [XUInt 0]"
    using emits_pack_uint_fits [of "gv_tmax d'"] emits_pack_uint_fits [of "gv_dmax d'"]
    by (simp_all add: d' uint_fits_def uint_of_def)
  have v: "emits (get_meta_value_buf d')
      ([XString (ascii ''heartbeat'')] @ [XBool (spoof_host_set (gm_spoof_host d'))]
       @ [XString (ascii ''uint32'')] @ [XString (ascii ''heartbeat'')] @ [XString []]
       @ [XUInt 0] @ [XUInt 0] @ [XUInt 0] @ [])"
    unfolding get_meta_value_buf_def
    by (intro emits_run_Cons emits_run_Nil n emits_spoof_flag_host_fits [OF h] t u s x)
  have "emits (run [pack_int 128, pack_encoded (targethost d'), get_meta_value_buf d'])
      ([XInt 128] @ [XString (origin_host d')]
       @ ([XString (ascii ''heartbeat'')] @ [XBool (spoof_host_set (gm_spoof_host d'))]
         @ [XString (ascii ''uint32'')] @ [XString (ascii ''heartbeat'')] @ [XString []]
         @ [XUInt 0] @ [XUInt 0] @ [XUInt 0] @ []) @ [])"
    by (intro emits_run_Cons emits_run_Nil 1 emits_targethost_host_fits [OF h] v)
  then show ?thesis by (simp add: o d'_def [symmetric])
qed

lemma get_metabuf_split:
  "get_metabuf d
     = (case run [pack_int 128, pack_encoded (targethost d), get_meta_value_buf d] [] of
          Inl e \<Rightarrow> Inl e
        | Inr buf \<Rightarrow> get_meta_meta_buf d buf)"
  by (auto simp: get_metabuf_def split: sum.splits)

lemma heartbeat_no_host:
  assumes "\<not> host_fits d"
  shows "\<exists>e. get_metabuf (snd (set_heartbeat d)) = Inl e"
proof -
  define d' where "d' = snd (set_heartbeat d)"
  have "host_fits d' = host_fits d"
    by (simp add: d'_def set_heartbeat_result host_fits_def)
  with assms have h: "\<not> host_fits d'" by simp
  have 1: "emits (pack_int 128) [XInt 128]"
    by (rule emits_pack_int) simp_all
  have "fails (run [pack_int 128, pack_encoded (targethost d'), get_meta_value_buf d',
                    get_meta_meta_buf d'])"
    by (intro fails_run_later [OF 1] fails_run_here fails_targethost [OF h])
  then show ?thesis by (simp add: get_metabuf_def fails_def d'_def)
qed

text \<open>
  C5, as stated, fails: after \<open>set_heartbeat\<close> a descriptor need not have a metadata
  record. The check of \<open>gm_group\<close> looks for a double quote in the elements that are
  true, so it lets the list \<open>[0]\<close> through; \<open>set_heartbeat\<close> returns, and
  \<open>get_metabuf\<close> raises \<open>AttributeError\<close> when it encodes the group element.
\<close>

theorem zero_group_heartbeat_fails:
  "setattr temperature ''gm_group'' (PList [PInt 0]) = (None, zero_group)
   \<and> validated zero_group
   \<and> fst (set_heartbeat zero_group) = None
   \<and> get_metabuf (snd (set_heartbeat zero_group)) = Inl AttributeError"
proof -
  have a: "setattr temperature ''gm_group'' (PList [PInt 0]) = (None, zero_group)"
    by (simp add: setattr_def store_def check_defs zero_group_def)
  have v: "validated zero_group"
    by (simp add: zero_group_def validated_def check_defs eval_defs)
  have s: "fst (set_heartbeat zero_group) = None"
    by (simp add: set_heartbeat_result)
  have h: "host_fits zero_group"
    by (simp add: host_fits_def zero_group_def eval_defs)
  have m: "get_meta_meta_buf (snd (set_heartbeat zero_group)) buf = Inl AttributeError" for buf
    by (simp add: set_heartbeat_result zero_group_def eval_defs get_meta_meta_buf_def
        count_mlen_def pack_if_set_def pack_group_def pack_pair_def pack_uint_def
        pack_string_def pack_fstring_def pack_encoded_def)
  from heartbeat_fixed_emits [OF h] m
  have g: "get_metabuf (snd (set_heartbeat zero_group)) = Inl AttributeError"
    by (simp add: get_metabuf_split emits_def)
  from a v s g show ?thesis by blast
qed

text \<open>
  C5, amended. For every descriptor, whatever its attributes held before,
  \<open>set_heartbeat\<close> returns without an exception, and every metadata record that
  \<open>get_metabuf\<close> then returns starts with the integer 128, the originating host, the
  metric name \<open>heartbeat\<close>, the spoof flag, the type name \<open>uint32\<close>, the name
  \<open>heartbeat\<close> again, empty units, slope 0, tmax 0 and dmax 0. \<open>get_metabuf\<close> returns
  a record whenever the attributes that \<open>set_heartbeat\<close> leaves alone fit the wire
  format: the originating host, those of cluster, description and title that are true,
  and the group when it is true.
\<close>

theorem set_heartbeat_metabuf:
  "fst (set_heartbeat d) = None
   \<and> (\<forall>buf. get_metabuf (snd (set_heartbeat d)) = Inr buf
        \<longrightarrow> (\<exists>tail. buf =
              xdr_encode [XInt 128, XString (origin_host d), XString (ascii ''heartbeat''),
                XBool (spoof_host_set (gm_spoof_host d)), XString (ascii ''uint32''),
                XString (ascii ''heartbeat''), XString [], XUInt 0, XUInt 0, XUInt 0]
              @ tail))
   \<and> (heartbeat_meta_fits d \<longrightarrow> (\<exists>buf. get_metabuf (snd (set_heartbeat d)) = Inr buf))"
proof (intro conjI allI impI)
  show "fst (set_heartbeat d) = None" by (simp add: set_heartbeat_result)
next
  fix buf
  assume a: "get_metabuf (snd (set_heartbeat d)) = Inr buf"
  then have h: "host_fits d" using heartbeat_no_host [of d] by auto
  from heartbeat_fixed_emits [OF h] a
  have "get_meta_meta_buf (snd (set_heartbeat d))
      (xdr_encode [XInt 128, XString (origin_host d), XString (ascii ''heartbeat''),
         XBool (spoof_host_set (gm_spoof_host d)), XString (ascii ''uint32''),
         XString (ascii ''heartbeat''), XString [], XUInt 0, XUInt 0, XUInt 0]) = Inr buf"
    by (simp add: get_metabuf_split emits_def)
  with appends_get_meta_meta_buf [of "snd (set_heartbeat d)"]
  show "\<exists>tail. buf =
              xdr_encode [XInt 128, XString (origin_host d), XString (ascii ''heartbeat''),
                XBool (spoof_host_set (gm_spoof_host d)), XString (ascii ''uint32''),
                XString (ascii ''heartbeat''), XString [], XUInt 0, XUInt 0, XUInt 0]
              @ tail"
    unfolding appends_def by blast
next
  assume f: "heartbeat_meta_fits d"
  then have h: "host_fits d" by (simp add: heartbeat_meta_fits_def)
  define d' where "d' = snd (set_heartbeat d)"
  have same: "gm_cluster d' = gm_cluster d" "gm_desc d' = gm_desc d" "gm_title d' = gm_title d"
    "gm_spoof_host d' = gm_spoof_host d" "gm_group d' = gm_group d"
    by (simp_all add: d'_def set_heartbeat_result)
  from f host_fits_spoof [OF h] have "succeeds (get_meta_meta_buf d')"
    by (intro succeeds_get_meta_meta_buf) (simp_all add: same heartbeat_meta_fits_def)
  with heartbeat_fixed_emits [OF h]
  show "\<exists>buf. get_metabuf (snd (set_heartbeat d)) = Inr buf"
    by (simp add: get_metabuf_split emits_def succeeds_def d'_def)
qed

theorem set_heartbeat_metabuf_witness:
  "fst (set_heartbeat spoofed_temperature) = None
   \<and> heartbeat_meta_fits spoofed_temperature
   \<and> (\<exists>tail. get_metabuf (snd (set_heartbeat spoofed_temperature))
          = Inr (xdr_encode [XInt 128, XString (ascii ''10.0.0.1:sw''),
                   XString (ascii ''heartbeat''), XBool True, XString (ascii ''uint32''),
                   XString (ascii ''heartbeat''), XString [], XUInt 0, XUInt 0, XUInt 0]
                 @ tail))"
proof -
  have f: "heartbeat_meta_fits spoofed_temperature"
    by (simp add: heartbeat_meta_fits_def host_fits_def fits_if_true_def eval_defs)
  have o: "origin_host spoofed_temperature = ascii ''10.0.0.1:sw''"
    "spoof_host_set (gm_spoof_host spoofed_temperature)"
    by (simp_all add: origin_host_def eval_defs)
  note t = set_heartbeat_metabuf [of spoofed_temperature]
  from t f obtain buf where b: "get_metabuf (snd (set_heartbeat spoofed_temperature)) = Inr buf"
    by blast
  with t o obtain tail where "buf = xdr_encode [XInt 128, XString (ascii ''10.0.0.1:sw''),
                   XString (ascii ''heartbeat''), XBool True, XString (ascii ''uint32''),
                   XString (ascii ''heartbeat''), XString [], XUInt 0, XUInt 0, XUInt 0] @ tail"
    by auto
  with b t f show ?thesis by blast
qed

end
